theory Spec2Isabelle
  imports Complex_Main "HOL-Library.Word" "HOL-Library.Sublist" "HOL-Library.Log_Nat"
begin

section \<open>The model: data, platform interface and operations\<close>

text \<open>
  The development follows \<^verbatim>\<open>rawinput_joystick_logger.py\<close>. A Python \<^verbatim>\<open>bytes\<close>
  value is a list of 8-bit words, a Python \<^verbatim>\<open>int\<close> is an \<open>int\<close>, and an exception
  is the left summand of a result.
\<close>

type_synonym byte = "8 word"
type_synonym UCHAR = "8 word"
type_synonym USHORT = "16 word"
type_synonym ULONG = "32 word"
type_synonym LONG = "32 word" \<comment> \<open>signed: read with \<open>sint\<close>\<close>

datatype exn = OSError | IndexError | ZeroDivisionError

subsection \<open>\<^verbatim>\<open>parse_report_bytes\<close>\<close>

text \<open>
  \<^verbatim>\<open>data[start:end]\<close> for indices \<open>0 \<le> start\<close>, \<open>0 \<le> end\<close>: Python clips both
  to the length of the sequence and never raises.
\<close>

definition py_slice :: "'a list \<Rightarrow> nat \<Rightarrow> nat \<Rightarrow> 'a list" where
  "py_slice xs start end = drop start (take end xs)"

text \<open>
  The body of \<^verbatim>\<open>for idx in range(count)\<close>, with the list \<^verbatim>\<open>reports\<close> as the
  accumulator. The sizes are the unsigned \<^verbatim>\<open>DWORD\<close> fields \<^verbatim>\<open>dwSizeHid\<close> and
  \<^verbatim>\<open>dwCount\<close> of the caller, hence natural numbers.
\<close>

fun parse_report_loop :: "byte list \<Rightarrow> nat \<Rightarrow> nat list \<Rightarrow> byte list list \<Rightarrow> byte list list" where
  "parse_report_loop data report_size [] reports = reports"
| "parse_report_loop data report_size (idx # idxs) reports =
     (let start = idx * report_size;
          end = start + report_size
      in parse_report_loop data report_size idxs
           (if end \<le> length data then reports @ [py_slice data start end] else reports))"

definition parse_report_bytes :: "byte list \<Rightarrow> nat \<Rightarrow> nat \<Rightarrow> byte list list" where
  "parse_report_bytes data report_size count = parse_report_loop data report_size [0..<count] []"

subsection \<open>Python floats\<close>

text \<open>
  A Python \<^verbatim>\<open>float\<close> is an IEEE 754 binary64 number; it is represented by the real
  number it denotes. Every arithmetic operation returns the exact result rounded to the
  nearest number with a 53-bit significand, ties to even. The exponent range is not
  bounded in the model (no overflow to infinity, no subnormal numbers): it is exact for
  magnitudes between \<open>2 ^ - 1022\<close> and \<open>2 ^ 1023\<close>, which covers every value computed
  from the 32-bit fields the program normalises. Infinities and NaN do not arise there.
\<close>

definition round_half_even :: "real \<Rightarrow> int" where
  "round_half_even q =
     (let f = \<lfloor>q\<rfloor>; r = q - of_int f
      in if r < 1 / 2 then f
         else if 1 / 2 < r then f + 1
         else if even f then f else f + 1)"

text \<open>The binary exponent \<open>\<lfloor>log\<^sub>2 \<bar>x\<bar>\<rfloor>\<close> of a non-zero number.\<close>

definition binexp :: "real \<Rightarrow> int" where
  "binexp x =
     (if 1 \<le> \<bar>x\<bar> then int (floorlog 2 (nat \<lfloor>\<bar>x\<bar>\<rfloor>)) - 1
      else - int (floorlog 2 (nat (\<lceil>1 / \<bar>x\<bar>\<rceil> - 1))))"

definition fl_round :: "real \<Rightarrow> real" where
  "fl_round x =
     (if x = 0 then 0
      else let ulp = 2 powi (binexp x - 52)
           in of_int (round_half_even (x / ulp)) * ulp)"

text \<open>\<^verbatim>\<open>float(i)\<close>, and the conversion of the integer operand of \<^verbatim>\<open>int / float\<close>.\<close>

definition float_of_int :: "int \<Rightarrow> real" where
  "float_of_int i = fl_round (of_int i)"

definition fl_div :: "real \<Rightarrow> real \<Rightarrow> exn + real" where
  "fl_div a b = (if b = 0 then Inl ZeroDivisionError else Inr (fl_round (a / b)))"

definition fl_mul :: "real \<Rightarrow> real \<Rightarrow> real" where
  "fl_mul a b = fl_round (a * b)"

definition fl_sub :: "real \<Rightarrow> real \<Rightarrow> real" where
  "fl_sub a b = fl_round (a - b)"

subsection \<open>\<^verbatim>\<open>normalize_value\<close>\<close>

definition normalize_value :: "int \<Rightarrow> int \<Rightarrow> int \<Rightarrow> exn + real option" where
  "normalize_value value logical_min logical_max =
     (if logical_max = logical_min then Inr None
      else
        let span = float_of_int (logical_max - logical_min)
        in if logical_min < 0 then
             (case fl_div (float_of_int (value - logical_min)) span of
                Inl e \<Rightarrow> Inl e
              | Inr q \<Rightarrow> Inr (Some (fl_sub (fl_mul q 2) 1)))
           else
             (case fl_div (float_of_int (value - logical_min)) span of
                Inl e \<Rightarrow> Inl e
              | Inr q \<Rightarrow> Inr (Some q)))"

subsection \<open>Constants and the HID capability structures\<close>

definition RIM_TYPEHID :: ULONG where
  "RIM_TYPEHID = 2"

definition HIDP_STATUS_SUCCESS :: int where
  "HIDP_STATUS_SUCCESS = 0x00110000"

definition USAGE_PAGE_GENERIC_DESKTOP :: int where
  "USAGE_PAGE_GENERIC_DESKTOP = 0x01"

definition USAGE_X :: int where "USAGE_X = 0x30"
definition USAGE_Y :: int where "USAGE_Y = 0x31"
definition USAGE_Z :: int where "USAGE_Z = 0x32"
definition USAGE_RX :: int where "USAGE_RX = 0x33"
definition USAGE_RY :: int where "USAGE_RY = 0x34"
definition USAGE_RZ :: int where "USAGE_RZ = 0x35"
definition USAGE_SLIDER :: int where "USAGE_SLIDER = 0x36"
definition USAGE_DIAL :: int where "USAGE_DIAL = 0x37"
definition USAGE_WHEEL :: int where "USAGE_WHEEL = 0x38"
definition USAGE_HAT :: int where "USAGE_HAT = 0x39"

definition AXIS_USAGE_NAMES :: "int \<rightharpoonup> string" where
  "AXIS_USAGE_NAMES = map_of
     [(USAGE_X, ''x''), (USAGE_Y, ''y''), (USAGE_Z, ''z''),
      (USAGE_RX, ''rx''), (USAGE_RY, ''ry''), (USAGE_RZ, ''rz''),
      (USAGE_SLIDER, ''slider''), (USAGE_DIAL, ''dial''),
      (USAGE_WHEEL, ''wheel''), (USAGE_HAT, ''hat'')]"

text \<open>
  Of each \<^verbatim>\<open>ctypes\<close> structure the fields the program reads are kept.
  \<^verbatim>\<open>HIDP_VALUE_CAPS_UNION\<close> and \<^verbatim>\<open>HIDP_BUTTON_CAPS_UNION\<close> overlay \<^verbatim>\<open>Range\<close>
  and \<^verbatim>\<open>NotRange\<close> on the same memory: \<^verbatim>\<open>Range.UsageMin\<close> and \<^verbatim>\<open>NotRange.Usage\<close>
  are the first 16-bit word of the union, \<^verbatim>\<open>Range.UsageMax\<close> is the second.
\<close>

record HIDP_CAPS_UNION =
  word0 :: USHORT
  word1 :: USHORT

definition Range_UsageMin :: "HIDP_CAPS_UNION \<Rightarrow> USHORT" where
  "Range_UsageMin un = word0 un"

definition Range_UsageMax :: "HIDP_CAPS_UNION \<Rightarrow> USHORT" where
  "Range_UsageMax un = word1 un"

definition NotRange_Usage :: "HIDP_CAPS_UNION \<Rightarrow> USHORT" where
  "NotRange_Usage un = word0 un"

record HIDP_CAPS =
  NumberInputButtonCaps :: USHORT
  NumberInputValueCaps :: USHORT

text \<open>Fields of \<^verbatim>\<open>HIDP_VALUE_CAPS\<close> (prefix \<open>vc\<close>) and \<^verbatim>\<open>HIDP_BUTTON_CAPS\<close> (prefix \<open>bc\<close>).\<close>

record HIDP_VALUE_CAPS =
  vc_UsagePage :: USHORT
  vc_IsRange :: UCHAR
  vc_LogicalMin :: LONG
  vc_LogicalMax :: LONG
  vc_u :: HIDP_CAPS_UNION

record HIDP_BUTTON_CAPS =
  bc_UsagePage :: USHORT
  bc_LinkCollection :: USHORT
  bc_IsRange :: UCHAR
  bc_u :: HIDP_CAPS_UNION

text \<open>The zero-initialised elements of a freshly created \<^verbatim>\<open>ctypes\<close> array.\<close>

definition zero_union :: HIDP_CAPS_UNION where
  "zero_union = \<lparr>word0 = 0, word1 = 0\<rparr>"

definition zero_value_caps :: HIDP_VALUE_CAPS where
  "zero_value_caps =
     \<lparr>vc_UsagePage = 0, vc_IsRange = 0, vc_LogicalMin = 0, vc_LogicalMax = 0, vc_u = zero_union\<rparr>"

definition zero_button_caps :: HIDP_BUTTON_CAPS where
  "zero_button_caps =
     \<lparr>bc_UsagePage = 0, bc_LinkCollection = 0, bc_IsRange = 0, bc_u = zero_union\<rparr>"

text \<open>
  A \<^verbatim>\<open>ctypes\<close> array of \<open>n\<close> zero-initialised elements after a callee has stored
  \<open>written\<close> into it from index 0.
\<close>

definition ctypes_array :: "nat \<Rightarrow> 'a \<Rightarrow> 'a list \<Rightarrow> 'a list" where
  "ctypes_array n zero written = take n (written @ replicate (n - length written) zero)"

record RID_DEVICE_INFO_HID =
  usUsagePage :: USHORT
  usUsage :: USHORT

text \<open>
  The data \<^verbatim>\<open>GetRawInputData\<close> delivers for one \<^verbatim>\<open>WM_INPUT\<close> message: the fields of
  \<^verbatim>\<open>RAWINPUTHEADER\<close> and \<^verbatim>\<open>RAWHID\<close> the program reads, and the bytes of the buffer
  from \<^verbatim>\<open>data_offset\<close> on.
\<close>

record RAWINPUT =
  dwType :: ULONG
  hDevice :: nat
  dwSizeHid :: ULONG
  dwCount :: ULONG
  bRawData :: "byte list"

subsection \<open>The platform interface\<close>

text \<open>
  The entry points of \<^verbatim>\<open>user32\<close> and \<^verbatim>\<open>hid\<close> the program calls are parameters of
  the model. A query that the program makes in two calls (size, then data) is one
  function; \<open>None\<close> stands for the failure value \<^verbatim>\<open>UINT(-1)\<close> of either call (for
  \<^verbatim>\<open>GetRawInputData\<close> also for a size of zero). The HIDP queries return their status
  and what they stored through their pointer arguments. The two queries made while a
  report is decoded may also raise (\<^verbatim>\<open>ctypes\<close> turns an access violation in the
  callee into \<^verbatim>\<open>OSError\<close>). \<open>time_ms\<close> is \<^verbatim>\<open>int(time.time() * 1000)\<close>.
\<close>

record winapi =
  RawInputDeviceName :: "nat \<Rightarrow> string option"
  RawInputDeviceInfo :: "nat \<Rightarrow> RID_DEVICE_INFO_HID option"
  RawInputPreparsedData :: "nat \<Rightarrow> byte list option"
  GetRawInputData :: "int \<Rightarrow> RAWINPUT option"
  HidP_GetCaps :: "byte list \<Rightarrow> int \<times> HIDP_CAPS"
  HidP_GetValueCaps :: "byte list \<Rightarrow> nat \<Rightarrow> int \<times> HIDP_VALUE_CAPS list \<times> USHORT"
  HidP_GetButtonCaps :: "byte list \<Rightarrow> nat \<Rightarrow> int \<times> HIDP_BUTTON_CAPS list \<times> USHORT"
  HidP_GetUsageValue :: "byte list \<Rightarrow> byte list \<Rightarrow> USHORT \<Rightarrow> USHORT \<Rightarrow> exn + int \<times> ULONG"
  HidP_GetUsages ::
    "byte list \<Rightarrow> byte list \<Rightarrow> USHORT \<Rightarrow> USHORT \<Rightarrow> nat \<Rightarrow> exn + int \<times> USHORT list \<times> ULONG"
  time_ms :: int

definition check_hidp :: "int \<Rightarrow> bool" where
  "check_hidp status = (if status \<noteq> HIDP_STATUS_SUCCESS then False else True)"

definition get_device_name :: "winapi \<Rightarrow> nat \<Rightarrow> string" where
  "get_device_name api h = (case RawInputDeviceName api h of None \<Rightarrow> [] | Some s \<Rightarrow> s)"

definition get_device_info :: "winapi \<Rightarrow> nat \<Rightarrow> RID_DEVICE_INFO_HID option" where
  "get_device_info api h = RawInputDeviceInfo api h"

definition get_preparsed_data :: "winapi \<Rightarrow> nat \<Rightarrow> byte list option" where
  "get_preparsed_data api h =
     (case RawInputPreparsedData api h of
        None \<Rightarrow> None
      | Some buffer \<Rightarrow> if length buffer = 0 then None else Some buffer)"

subsection \<open>\<^verbatim>\<open>parse_hid_caps\<close>\<close>

definition parse_hid_caps ::
  "winapi \<Rightarrow> byte list \<Rightarrow> (HIDP_CAPS \<times> HIDP_VALUE_CAPS list \<times> HIDP_BUTTON_CAPS list) option" where
  "parse_hid_caps api preparsed =
     (case HidP_GetCaps api preparsed of
        (status, caps) \<Rightarrow>
          if \<not> check_hidp status then None
          else
            let nv = unat (NumberInputValueCaps caps);
                nb = unat (NumberInputButtonCaps caps);
                value_caps =
                  (case HidP_GetValueCaps api preparsed nv of
                     (status_v, written_v, count_v) \<Rightarrow>
                       if \<not> check_hidp status_v then []
                       else take (unat count_v) (ctypes_array nv zero_value_caps written_v));
                button_caps =
                  (case HidP_GetButtonCaps api preparsed nb of
                     (status_b, written_b, count_b) \<Rightarrow>
                       if \<not> check_hidp status_b then []
                       else take (unat count_b) (ctypes_array nb zero_button_caps written_b))
            in Some (caps, value_caps, button_caps))"

subsection \<open>\<^verbatim>\<open>hid_get_usage_value\<close> and \<^verbatim>\<open>hid_get_usages\<close>\<close>

definition hid_get_usage_value ::
  "winapi \<Rightarrow> byte list \<Rightarrow> byte list \<Rightarrow> int \<Rightarrow> int \<Rightarrow> exn + int option" where
  "hid_get_usage_value api preparsed report usage_page usage =
     (case HidP_GetUsageValue api preparsed report (word_of_int usage_page) (word_of_int usage) of
        Inl e \<Rightarrow> Inl e
      | Inr (status, value) \<Rightarrow>
          if \<not> check_hidp status then Inr None else Inr (Some (uint value)))"

text \<open>
  \<^verbatim>\<open>[int(usages[i]) for i in range(usage_count.value)]\<close> indexes an array of
  \<^verbatim>\<open>max_usages\<close> elements: a count beyond it raises \<^verbatim>\<open>IndexError\<close>.
\<close>

definition hid_get_usages ::
  "winapi \<Rightarrow> byte list \<Rightarrow> byte list \<Rightarrow> int \<Rightarrow> int \<Rightarrow> int \<Rightarrow> exn + int list" where
  "hid_get_usages api preparsed report usage_page link_collection max_usages =
     (case HidP_GetUsages api preparsed report (word_of_int usage_page)
             (word_of_int link_collection) (nat max_usages) of
        Inl e \<Rightarrow> Inl e
      | Inr (status, written, usage_count) \<Rightarrow>
          if \<not> check_hidp status then Inr []
          else
            let usages = ctypes_array (nat max_usages) 0 written
            in if unat usage_count \<le> length usages
               then Inr (map uint (take (unat usage_count) usages))
               else Inl IndexError)"

subsection \<open>\<^verbatim>\<open>decode_hid_report\<close>\<close>

text \<open>One entry of the \<^verbatim>\<open>axes\<close> dictionary, with the keys \<^verbatim>\<open>raw\<close>, \<^verbatim>\<open>norm\<close>, \<^verbatim>\<open>min\<close>, \<^verbatim>\<open>max\<close>.\<close>

record axis_reading =
  raw :: int
  norm' :: "real option"
  min' :: int
  max' :: int

type_synonym axes_dict = "string \<rightharpoonup> axis_reading"

text \<open>The usages a value capability stands for: \<^verbatim>\<open>range(UsageMin, UsageMax + 1)\<close> or one usage.\<close>

definition value_cap_usages :: "HIDP_VALUE_CAPS \<Rightarrow> int list" where
  "value_cap_usages cap =
     (if vc_IsRange cap \<noteq> 0
      then [uint (Range_UsageMin (vc_u cap)) .. uint (Range_UsageMax (vc_u cap))]
      else [uint (NotRange_Usage (vc_u cap))])"

text \<open>The inner loop \<^verbatim>\<open>for usage in usages\<close> of one value capability.\<close>

fun usages_loop ::
  "winapi \<Rightarrow> byte list \<Rightarrow> byte list \<Rightarrow> HIDP_VALUE_CAPS \<Rightarrow> int list \<Rightarrow> axes_dict \<Rightarrow> exn + axes_dict" where
  "usages_loop api report preparsed cap [] axes = Inr axes"
| "usages_loop api report preparsed cap (usage # usages) axes =
     (case AXIS_USAGE_NAMES usage of
        None \<Rightarrow> usages_loop api report preparsed cap usages axes
      | Some name \<Rightarrow>
          (case hid_get_usage_value api preparsed report (uint (vc_UsagePage cap)) usage of
             Inl e \<Rightarrow> Inl e
           | Inr None \<Rightarrow> usages_loop api report preparsed cap usages axes
           | Inr (Some value) \<Rightarrow>
               (case normalize_value value (sint (vc_LogicalMin cap)) (sint (vc_LogicalMax cap)) of
                  Inl e \<Rightarrow> Inl e
                | Inr nrm \<Rightarrow>
                    usages_loop api report preparsed cap usages
                      (axes(name \<mapsto>
                         \<lparr>raw = value, norm' = nrm,
                          min' = sint (vc_LogicalMin cap), max' = sint (vc_LogicalMax cap)\<rparr>)))))"

text \<open>The loop \<^verbatim>\<open>for cap in value_caps\<close>.\<close>

fun value_caps_loop ::
  "winapi \<Rightarrow> byte list \<Rightarrow> byte list \<Rightarrow> HIDP_VALUE_CAPS list \<Rightarrow> axes_dict \<Rightarrow> exn + axes_dict" where
  "value_caps_loop api report preparsed [] axes = Inr axes"
| "value_caps_loop api report preparsed (cap # caps) axes =
     (if uint (vc_UsagePage cap) \<noteq> USAGE_PAGE_GENERIC_DESKTOP
      then value_caps_loop api report preparsed caps axes
      else
        (case usages_loop api report preparsed cap (value_cap_usages cap) axes of
           Inl e \<Rightarrow> Inl e
         | Inr axes' \<Rightarrow> value_caps_loop api report preparsed caps axes'))"

text \<open>The loop \<^verbatim>\<open>for cap in button_caps\<close>, with the list \<^verbatim>\<open>buttons\<close> as the accumulator.\<close>

fun button_caps_loop ::
  "winapi \<Rightarrow> byte list \<Rightarrow> byte list \<Rightarrow> HIDP_BUTTON_CAPS list \<Rightarrow> int list \<Rightarrow> exn + int list" where
  "button_caps_loop api report preparsed [] buttons = Inr buttons"
| "button_caps_loop api report preparsed (cap # caps) buttons =
     (let usage_page = uint (bc_UsagePage cap);
          link = uint (bc_LinkCollection cap);
          max_usages =
            (if bc_IsRange cap \<noteq> 0
             then uint (Range_UsageMax (bc_u cap)) - uint (Range_UsageMin (bc_u cap)) + 1
             else 1)
      in if max_usages \<le> 0 then button_caps_loop api report preparsed caps buttons
         else
           (case hid_get_usages api preparsed report usage_page link max_usages of
              Inl e \<Rightarrow> Inl e
            | Inr pressed \<Rightarrow> button_caps_loop api report preparsed caps (buttons @ pressed)))"

text \<open>\<^verbatim>\<open>sorted(set(buttons))\<close>.\<close>

definition sorted_set :: "int list \<Rightarrow> int list" where
  "sorted_set xs = sort (remdups xs)"

definition decode_hid_report ::
  "winapi \<Rightarrow> byte list \<Rightarrow> byte list \<Rightarrow> HIDP_VALUE_CAPS list \<Rightarrow> HIDP_BUTTON_CAPS list
     \<Rightarrow> exn + axes_dict \<times> int list" where
  "decode_hid_report api report preparsed value_caps button_caps =
     (case value_caps_loop api report preparsed value_caps Map.empty of
        Inl e \<Rightarrow> Inl e
      | Inr axes \<Rightarrow>
          (case button_caps_loop api report preparsed button_caps [] of
             Inl e \<Rightarrow> Inl e
           | Inr buttons \<Rightarrow> Inr (axes, sorted_set buttons)))"

subsection \<open>\<^verbatim>\<open>DeviceState\<close>\<close>

record DeviceState =
  ds_handle :: nat
  ds_name :: string
  ds_info :: "RID_DEVICE_INFO_HID option"
  ds_preparsed :: "byte list option"
  ds_caps :: "HIDP_CAPS option"
  ds_value_caps :: "HIDP_VALUE_CAPS list"
  ds_button_caps :: "HIDP_BUTTON_CAPS list"

text \<open>\<^verbatim>\<open>DeviceState.__init__\<close>.\<close>

definition DeviceState_init :: "winapi \<Rightarrow> nat \<Rightarrow> DeviceState" where
  "DeviceState_init api h =
     (let self = \<lparr>ds_handle = h, ds_name = get_device_name api h,
                  ds_info = get_device_info api h,
                  ds_preparsed = get_preparsed_data api h,
                  ds_caps = None, ds_value_caps = [], ds_button_caps = []\<rparr>
      in case ds_preparsed self of
           None \<Rightarrow> self
         | Some preparsed \<Rightarrow>
             (case parse_hid_caps api preparsed of
                None \<Rightarrow> self
              | Some (caps, value_caps, button_caps) \<Rightarrow>
                  self\<lparr>ds_caps := Some caps, ds_value_caps := value_caps,
                       ds_button_caps := button_caps\<rparr>))"

definition ds_usage_page :: "DeviceState \<Rightarrow> int option" where
  "ds_usage_page self = (case ds_info self of None \<Rightarrow> None | Some i \<Rightarrow> Some (uint (usUsagePage i)))"

definition ds_usage :: "DeviceState \<Rightarrow> int option" where
  "ds_usage self = (case ds_info self of None \<Rightarrow> None | Some i \<Rightarrow> Some (uint (usUsage i)))"

subsection \<open>\<^verbatim>\<open>EventWriter\<close> and \<^verbatim>\<open>RawInputLogger\<close>\<close>

text \<open>
  A row handed to \<^verbatim>\<open>write_event\<close>, with the keys of the dictionary. The textual
  encodings are not modelled: \<open>report_hex\<close> holds the bytes of the report, \<open>axes_json\<close>
  and \<open>buttons_json\<close> hold the decoded values, \<open>device_handle\<close> the number; the key
  \<^verbatim>\<open>timestamp_iso\<close>, derived from the same clock reading as \<open>timestamp_ms\<close>, is left
  out. The writer is the list of the rows written so far.
\<close>

record event_row =
  timestamp_ms :: int
  device_handle :: nat
  device_name :: string
  usage_page :: "int option"
  usage :: "int option"
  report_size :: nat
  report_hex :: "byte list"
  axes_json :: axes_dict
  buttons_json :: "int list"

type_synonym EventWriter = "event_row list"

definition write_event :: "EventWriter \<Rightarrow> event_row \<Rightarrow> EventWriter" where
  "write_event file row = file @ [row]"

text \<open>
  \<^verbatim>\<open>str.lower()\<close> on ASCII text: device names and filters are taken to be ASCII.
\<close>

definition lower_char :: "char \<Rightarrow> char" where
  "lower_char c =
     (let n = (of_char c :: nat) in if 65 \<le> n \<and> n \<le> 90 then char_of (n + 32) else c)"

definition lower :: "string \<Rightarrow> string" where
  "lower s = map lower_char s"

text \<open>
  The state of a \<^verbatim>\<open>RawInputLogger\<close>. The field \<open>filter_checks\<close> is not an attribute
  of the class: it records, in order, the handle of every call of \<^verbatim>\<open>_match_filter\<close>
  made by \<^verbatim>\<open>get_device_state\<close>, so that how often the filter is evaluated can be
  stated. Nothing reads it. The attribute \<^verbatim>\<open>echo\<close> only controls printing and is left
  out.
\<close>

record RawInputLogger =
  writer :: EventWriter
  device_filter :: "string option"
  device_cache :: "nat \<rightharpoonup> DeviceState"
  filter_checks :: "nat list"

text \<open>\<^verbatim>\<open>RawInputLogger.__init__\<close>: an empty or absent filter is stored as \<^verbatim>\<open>None\<close>.\<close>

definition RawInputLogger_init :: "EventWriter \<Rightarrow> string option \<Rightarrow> RawInputLogger" where
  "RawInputLogger_init w flt =
     \<lparr>writer = w,
      device_filter = (case flt of None \<Rightarrow> None | Some f \<Rightarrow> if f = [] then None else Some (lower f)),
      device_cache = Map.empty,
      filter_checks = []\<rparr>"

definition match_filter :: "RawInputLogger \<Rightarrow> string \<Rightarrow> bool" where
  "match_filter self name =
     (case device_filter self of
        None \<Rightarrow> True
      | Some f \<Rightarrow> if f = [] then True else sublist f (lower name))"

definition get_device_state :: "winapi \<Rightarrow> RawInputLogger \<Rightarrow> nat \<Rightarrow> DeviceState option \<times> RawInputLogger" where
  "get_device_state api self handle_value =
     (case device_cache self handle_value of
        Some state \<Rightarrow> (Some state, self)
      | None \<Rightarrow>
          let state = DeviceState_init api handle_value;
              self1 = self\<lparr>filter_checks := filter_checks self @ [handle_value]\<rparr>
          in if \<not> match_filter self (ds_name state) then (None, self1)
             else (Some state,
                   self1\<lparr>device_cache := (device_cache self)(handle_value \<mapsto> state)\<rparr>))"

text \<open>
  The loop \<^verbatim>\<open>for report in reports\<close> of \<^verbatim>\<open>handle_wm_input\<close>: the \<^verbatim>\<open>try\<close> around
  \<^verbatim>\<open>decode_hid_report\<close> catches every \<^verbatim>\<open>Exception\<close>.
\<close>

fun reports_loop ::
  "winapi \<Rightarrow> DeviceState \<Rightarrow> nat \<Rightarrow> byte list list \<Rightarrow> RawInputLogger \<Rightarrow> RawInputLogger" where
  "reports_loop api device_state h [] self = self"
| "reports_loop api device_state h (report # reports) self =
     (let (axes, buttons) =
            (if ds_preparsed device_state \<noteq> None \<and> ds_value_caps device_state \<noteq> []
             then
               (case decode_hid_report api report (the (ds_preparsed device_state))
                       (ds_value_caps device_state) (ds_button_caps device_state) of
                  Inl e \<Rightarrow> (Map.empty, [])
                | Inr decoded \<Rightarrow> decoded)
             else (Map.empty, []));
          row = \<lparr>timestamp_ms = time_ms api,
                 device_handle = h,
                 device_name = ds_name device_state,
                 usage_page = ds_usage_page device_state,
                 usage = ds_usage device_state,
                 report_size = length report,
                 report_hex = report,
                 axes_json = axes,
                 buttons_json = buttons\<rparr>
      in reports_loop api device_state h reports (self\<lparr>writer := write_event (writer self) row\<rparr>))"

definition handle_wm_input :: "winapi \<Rightarrow> RawInputLogger \<Rightarrow> int \<Rightarrow> RawInputLogger" where
  "handle_wm_input api self lparam =
     (case GetRawInputData api lparam of
        None \<Rightarrow> self
      | Some ri \<Rightarrow>
          if dwType ri \<noteq> RIM_TYPEHID then self
          else
            let raw_bytes = py_slice (bRawData ri) 0 (unat (dwSizeHid ri) * unat (dwCount ri));
                reports = parse_report_bytes raw_bytes (unat (dwSizeHid ri)) (unat (dwCount ri))
            in case get_device_state api self (hDevice ri) of
                 (None, self') \<Rightarrow> self'
               | (Some device_state, self') \<Rightarrow>
                   reports_loop api device_state (hDevice ri) reports self')"

text \<open>
  The message loop of \<^verbatim>\<open>main\<close> hands every \<^verbatim>\<open>WM_INPUT\<close> message to
  \<^verbatim>\<open>handle_wm_input\<close>, in order.
\<close>

definition message_loop :: "winapi \<Rightarrow> RawInputLogger \<Rightarrow> int list \<Rightarrow> RawInputLogger" where
  "message_loop api self lparams = foldl (handle_wm_input api) self lparams"

subsection \<open>Auxiliary definitions for stating the results\<close>

text \<open>
  The row the body of the loop \<^verbatim>\<open>for report in reports\<close> writes for one report, and
  the decoding it attempts: the two halves of the body of \<open>reports_loop\<close>.
\<close>

definition decode_or_empty :: "winapi \<Rightarrow> DeviceState \<Rightarrow> byte list \<Rightarrow> axes_dict \<times> int list" where
  "decode_or_empty api device_state report =
     (if ds_preparsed device_state \<noteq> None \<and> ds_value_caps device_state \<noteq> []
      then
        (case decode_hid_report api report (the (ds_preparsed device_state))
                (ds_value_caps device_state) (ds_button_caps device_state) of
           Inl e \<Rightarrow> (Map.empty, [])
         | Inr decoded \<Rightarrow> decoded)
      else (Map.empty, []))"

definition report_row ::
  "winapi \<Rightarrow> DeviceState \<Rightarrow> nat \<Rightarrow> byte list \<Rightarrow> axes_dict \<times> int list \<Rightarrow> event_row" where
  "report_row api device_state h report decoded =
     \<lparr>timestamp_ms = time_ms api,
      device_handle = h,
      device_name = ds_name device_state,
      usage_page = ds_usage_page device_state,
      usage = ds_usage device_state,
      report_size = length report,
      report_hex = report,
      axes_json = fst decoded,
      buttons_json = snd decoded\<rparr>"

subsection \<open>Concrete platforms and devices\<close>

text \<open>
  A platform on which every query fails, and variations of it; the theorems below are
  instantiated on them.
\<close>

definition example_api :: winapi where
  "example_api =
     \<lparr>RawInputDeviceName = (\<lambda>h. None),
      RawInputDeviceInfo = (\<lambda>h. None),
      RawInputPreparsedData = (\<lambda>h. None),
      GetRawInputData = (\<lambda>lparam. None),
      HidP_GetCaps = (\<lambda>preparsed. (0, \<lparr>NumberInputButtonCaps = 0, NumberInputValueCaps = 0\<rparr>)),
      HidP_GetValueCaps = (\<lambda>preparsed n. (0, [], 0)),
      HidP_GetButtonCaps = (\<lambda>preparsed n. (0, [], 0)),
      HidP_GetUsageValue = (\<lambda>preparsed report page u. Inr (0, 0)),
      HidP_GetUsages = (\<lambda>preparsed report page link n. Inr (0, [], 0)),
      time_ms = 0\<rparr>"

text \<open>A button capability for the usage range \<open>lo .. hi\<close> of the button page.\<close>

definition button_range :: "int \<Rightarrow> int \<Rightarrow> HIDP_BUTTON_CAPS" where
  "button_range lo hi =
     \<lparr>bc_UsagePage = 9, bc_LinkCollection = 0, bc_IsRange = 1,
      bc_u = \<lparr>word0 = word_of_int lo, word1 = word_of_int hi\<rparr>\<rparr>"

text \<open>A platform on which every button query reports the one pressed usage 5.\<close>

definition api_button5 :: winapi where
  "api_button5 = example_api\<lparr>HidP_GetUsages :=
      (\<lambda>preparsed report page link n. Inr (HIDP_STATUS_SUCCESS, [5], 1))\<rparr>"

text \<open>Whether the message \<open>lparam\<close> carries HID input of the device \<open>h\<close>.\<close>

definition hid_event_from :: "winapi \<Rightarrow> nat \<Rightarrow> int \<Rightarrow> bool" where
  "hid_event_from api h lparam =
     (case GetRawInputData api lparam of
        None \<Rightarrow> False
      | Some ri \<Rightarrow> dwType ri = RIM_TYPEHID \<and> hDevice ri = h)"

text \<open>
  A platform with one device, handle 7, named \<^verbatim>\<open>Logitech Gamepad\<close>: every message
  carries one two-byte report of it.
\<close>

definition api_logitech :: winapi where
  "api_logitech = example_api
     \<lparr>RawInputDeviceName := (\<lambda>h. Some ''Logitech Gamepad''),
      GetRawInputData := (\<lambda>lparam.
        Some \<lparr>dwType = RIM_TYPEHID, hDevice = 7, dwSizeHid = 2, dwCount = 1, bRawData = [1, 2]\<rparr>)\<rparr>"

text \<open>A value capability for the single usage \<open>u\<close> of the generic-desktop page.\<close>

definition axis_cap :: "int \<Rightarrow> int \<Rightarrow> int \<Rightarrow> HIDP_VALUE_CAPS" where
  "axis_cap u lo hi =
     \<lparr>vc_UsagePage = 1, vc_IsRange = 0, vc_LogicalMin = word_of_int lo,
      vc_LogicalMax = word_of_int hi, vc_u = \<lparr>word0 = word_of_int u, word1 = 0\<rparr>\<rparr>"

text \<open>
  Platforms on which \<^verbatim>\<open>HidP_GetCaps\<close> succeeds and one of the two table queries
  fails with \<^verbatim>\<open>HIDP_STATUS_INVALID_PREPARSED_DATA\<close> (\<^verbatim>\<open>0xC0110001\<close> as a C int).
\<close>

definition api_value_caps_fail :: winapi where
  "api_value_caps_fail = example_api
     \<lparr>HidP_GetCaps := (\<lambda>preparsed.
        (HIDP_STATUS_SUCCESS, \<lparr>NumberInputButtonCaps = 1, NumberInputValueCaps = 1\<rparr>)),
      HidP_GetValueCaps := (\<lambda>preparsed n. (- 1072627711, [], 0)),
      HidP_GetButtonCaps := (\<lambda>preparsed n. (HIDP_STATUS_SUCCESS, [button_range 1 8], 1))\<rparr>"

definition api_button_caps_fail :: winapi where
  "api_button_caps_fail = example_api
     \<lparr>HidP_GetCaps := (\<lambda>preparsed.
        (HIDP_STATUS_SUCCESS, \<lparr>NumberInputButtonCaps = 1, NumberInputValueCaps = 2\<rparr>)),
      HidP_GetValueCaps := (\<lambda>preparsed n. (HIDP_STATUS_SUCCESS, [axis_cap 0x30 0 255], 1)),
      HidP_GetButtonCaps := (\<lambda>preparsed n. (- 1072627711, [], 0))\<rparr>"

text \<open>
  A platform on which reading a usage value raises for the report \<open>[255]\<close> and
  succeeds with the value 0 for every other report; a device with one axis; a logger
  without filter.
\<close>

definition api_fault :: winapi where
  "api_fault = example_api\<lparr>HidP_GetUsageValue :=
      (\<lambda>preparsed report page u.
         if report = [255] then Inl OSError else Inr (HIDP_STATUS_SUCCESS, 0))\<rparr>"

definition pad :: DeviceState where
  "pad = \<lparr>ds_handle = 7, ds_name = ''pad'', ds_info = None, ds_preparsed = Some [1],
           ds_caps = Some \<lparr>NumberInputButtonCaps = 0, NumberInputValueCaps = 1\<rparr>,
           ds_value_caps = [axis_cap 0x30 0 0], ds_button_caps = []\<rparr>"

definition plain_logger :: RawInputLogger where
  "plain_logger = RawInputLogger_init [] None"

text \<open>
  A device with a capability descriptor and a button capability but no value
  capability, cached by a logger; a platform that delivers one report of it and would
  report button 5 as pressed.
\<close>

definition button_box :: DeviceState where
  "button_box = \<lparr>ds_handle = 7, ds_name = ''box'', ds_info = None, ds_preparsed = Some [1],
           ds_caps = Some \<lparr>NumberInputButtonCaps = 1, NumberInputValueCaps = 0\<rparr>,
           ds_value_caps = [], ds_button_caps = [button_range 1 8]\<rparr>"

definition box_logger :: RawInputLogger where
  "box_logger = plain_logger\<lparr>device_cache := [7 \<mapsto> button_box]\<rparr>"

definition api_box :: winapi where
  "api_box = api_button5\<lparr>GetRawInputData := (\<lambda>lparam.
        Some \<lparr>dwType = RIM_TYPEHID, hDevice = 7, dwSizeHid = 2, dwCount = 1, bRawData = [1, 2]\<rparr>)\<rparr>"

text \<open>Platforms on which every usage value is read successfully as 0, respectively 7.\<close>

definition api_zero :: winapi where
  "api_zero = example_api\<lparr>HidP_GetUsageValue :=
      (\<lambda>preparsed report page u. Inr (HIDP_STATUS_SUCCESS, 0))\<rparr>"

definition api_seven :: winapi where
  "api_seven = example_api\<lparr>HidP_GetUsageValue :=
      (\<lambda>preparsed report page u. Inr (HIDP_STATUS_SUCCESS, 7))\<rparr>"

section \<open>Properties of the segmentation\<close>

lemma parse_report_loop_filter:
  "parse_report_loop data rs idxs reports =
     reports @ map (\<lambda>i. py_slice data (i * rs) (i * rs + rs))
                 (filter (\<lambda>i. i * rs + rs \<le> length data) idxs)"
  by (induction idxs arbitrary: reports) (simp_all add: Let_def)

lemma fits_iff_less_div:
  assumes "0 < (rs::nat)"
  shows "i * rs + rs \<le> n \<longleftrightarrow> i < n div rs"
proof -
  have eq: "i * rs + rs = Suc i * rs" by simp
  have "Suc i * rs \<le> n \<longleftrightarrow> Suc i \<le> n div rs"
    using assms by (simp only: less_eq_div_iff_mult_less_eq)
  then show ?thesis
    unfolding eq by (simp only: Suc_le_eq)
qed

lemma filter_upt_less:
  "filter (\<lambda>i. i < m) [0..<n] = [0..<min n m]"
proof (induction n)
  case 0
  then show ?case by simp
next
  case (Suc n)
  show ?case
  proof (cases "n < m")
    case True
    with Suc show ?thesis by (simp add: min_def)
  next
    case False
    then have "min n m = m" "min (Suc n) m = m" by simp_all
    with Suc False show ?thesis by simp
  qed
qed

lemma parse_report_bytes_map:
  assumes "0 < rs"
  shows "parse_report_bytes data rs count =
           map (\<lambda>i. py_slice data (i * rs) (i * rs + rs)) [0..<min count (length data div rs)]"
  by (simp add: parse_report_bytes_def parse_report_loop_filter fits_iff_less_div [OF assms]
        filter_upt_less)

lemma py_slice_full_length:
  "j \<le> length xs \<Longrightarrow> i \<le> j \<Longrightarrow> length (py_slice xs i j) = j - i"
  by (simp add: py_slice_def)

text \<open>
  A report size of zero, for which the quotient of the lengths is not defined, gives
  \<open>count\<close> empty slices.
\<close>

lemma parse_report_bytes_zero_size:
  "parse_report_bytes data 0 count = replicate count []"
  by (simp add: parse_report_bytes_def parse_report_loop_filter py_slice_def map_replicate_const)

text \<open>
  C1. For a positive report size, \<^verbatim>\<open>parse_report_bytes\<close> returns exactly
  \<open>min count (length data div rsize)\<close> slices; slice \<open>i\<close> is
  \<^verbatim>\<open>data[i*rsize:(i+1)*rsize]\<close> and has length \<open>rsize\<close>; a blob
  shorter than one report gives no slice, and a trailing partial report is dropped.
\<close>

theorem parse_report_bytes_segments:
  assumes "0 < rsize"
  shows "parse_report_bytes data rsize count =
           map (\<lambda>i. py_slice data (i * rsize) ((i + 1) * rsize))
               [0..<min count (length data div rsize)]
         \<and> length (parse_report_bytes data rsize count) =
             min count (length data div rsize)
         \<and> list_all (\<lambda>s. length s = rsize) (parse_report_bytes data rsize count)
         \<and> (length data < rsize \<longrightarrow> parse_report_bytes data rsize count = [])"
proof -
  let ?n = "min count (length data div rsize)"
  have m: "parse_report_bytes data rsize count =
             map (\<lambda>i. py_slice data (i * rsize) ((i + 1) * rsize)) [0..<?n]"
    using parse_report_bytes_map [OF assms, of data count] by (simp add: add.commute)
  have len: "length (parse_report_bytes data rsize count) = ?n"
    by (simp add: m)
  have each: "length (py_slice data (i * rsize) ((i + 1) * rsize)) = rsize"
    if "i < ?n" for i
  proof -
    from that have "i < length data div rsize" by simp
    then have "i * rsize + rsize \<le> length data"
      using fits_iff_less_div [OF assms] by simp
    then show ?thesis
      by (simp add: py_slice_full_length)
  qed
  have all: "list_all (\<lambda>s. length s = rsize) (parse_report_bytes data rsize count)"
    unfolding m list_all_iff using each by auto
  have short: "length data < rsize \<longrightarrow> parse_report_bytes data rsize count = []"
    by (simp add: m)
  from m len all short show ?thesis by blast
qed

theorem parse_report_bytes_segments_witness:
  "(0::nat) < 2
   \<and> parse_report_bytes [1, 2, 3, 4, 5] 2 3 = [[1, 2], [3, 4]]
   \<and> length (parse_report_bytes [1, 2, 3, 4, 5] 2 3) = min 3 (length [1, 2, 3, 4, 5 :: byte] div 2)
   \<and> parse_report_bytes [1] 2 3 = []"
proof -
  have h: "(0::nat) < 2" by simp
  have a: "parse_report_bytes [1, 2, 3, 4, 5] 2 3 = [[1, 2], [3, 4]]"
    by (simp add: parse_report_bytes_def py_slice_def upt_conv_Cons)
  have b: "parse_report_bytes [1] 2 3 = []"
    by (simp add: parse_report_bytes_def py_slice_def upt_conv_Cons)
  from parse_report_bytes_segments [OF h, of "[1, 2, 3, 4, 5]" 3] a b h
  show ?thesis by simp
qed

section \<open>The loop over the reports of one message\<close>

lemma reports_loop_rows:
  "reports_loop api ds h reports L =
     L\<lparr>writer := writer L @ map (\<lambda>r. report_row api ds h r (decode_or_empty api ds r)) reports\<rparr>"
proof (induction reports arbitrary: L)
  case Nil
  then show ?case by simp
next
  case (Cons r rs)
  show ?case
    by (simp add: Cons.IH write_event_def report_row_def decode_or_empty_def split: prod.splits sum.splits)
qed

lemma ds_name_init: "ds_name (DeviceState_init api h) = get_device_name api h"
  by (simp add: DeviceState_init_def Let_def split: option.splits prod.splits)

section \<open>The decoded buttons\<close>

lemma sorted_set_strict: "sorted_wrt (<) (sorted_set xs) \<and> distinct (sorted_set xs)"
  by (simp add: sorted_set_def strict_sorted_iff)

lemma set_sorted_set: "set (sorted_set xs) = set xs"
  by (simp add: sorted_set_def)

text \<open>
  C2. Whatever the button capabilities (overlapping ranges included) and the report,
  the buttons \<^verbatim>\<open>decode_hid_report\<close> returns are strictly ascending, hence without
  duplicates. The instance below has two overlapping button capabilities that both
  report usage 5: the result holds 5 once.
\<close>

theorem decode_buttons_sorted:
  assumes "decode_hid_report api report preparsed value_caps button_caps = Inr (axes, buttons)"
  shows "sorted_wrt (<) buttons \<and> distinct buttons"
proof -
  from assms obtain pressed where "buttons = sorted_set pressed"
    by (auto simp: decode_hid_report_def split: sum.splits)
  then show ?thesis
    using sorted_set_strict by simp
qed

theorem decode_buttons_sorted_witness:
  "decode_hid_report api_button5 [0] [1] [] [button_range 1 8, button_range 4 12]
     = Inr (Map.empty, [5])
   \<and> sorted_wrt (<) [5 :: int] \<and> distinct [5 :: int]"
proof -
  have e: "decode_hid_report api_button5 [0] [1] [] [button_range 1 8, button_range 4 12]
             = Inr (Map.empty, [5])"
    by (simp add: decode_hid_report_def api_button5_def example_api_def button_range_def
          hid_get_usages_def check_hidp_def HIDP_STATUS_SUCCESS_def ctypes_array_def
          Range_UsageMax_def Range_UsageMin_def sorted_set_def Let_def)
  from decode_buttons_sorted [OF e] e show ?thesis by simp
qed

section \<open>Rounding and normalisation\<close>

lemma round_half_even_of_int: "round_half_even (of_int z) = z"
  by (simp add: round_half_even_def)

lemma fl_round_of_int:
  assumes "\<bar>n\<bar> < 2 ^ 53"
  shows "fl_round (of_int n) = of_int n"
proof (cases "n = 0")
  case True
  then show ?thesis by (simp add: fl_round_def)
next
  case False
  define m where "m = nat \<bar>n\<bar>"
  define fl where "fl = floorlog 2 m"
  have mpos: "0 < m" using False by (simp add: m_def)
  have b: "2 ^ (fl - 1) \<le> m" "m < 2 ^ fl"
    using floorlog_bounds [of m 2] mpos by (simp_all add: fl_def)
  have "m < 2 ^ 53" using assms by (simp add: m_def nat_less_iff)
  with b(1) have "(2::nat) ^ (fl - 1) < 2 ^ 53" by linarith
  then have "fl - 1 < 53" by (rule power_less_imp_less_exp [rotated]) simp
  then have fl53: "fl \<le> 53" by simp
  define k where "k = 53 - fl"
  have ge1: "1 \<le> \<bar>real_of_int n\<bar>" using False by (simp add: abs_if) linarith?
  have fl_abs: "\<lfloor>\<bar>real_of_int n\<bar>\<rfloor> = \<bar>n\<bar>"
    by (metis floor_of_int of_int_abs)
  have be: "binexp (of_int n) = int fl - 1"
    using ge1 by (simp add: binexp_def fl_abs fl_def m_def)
  have e: "binexp (of_int n) - 52 = - int k"
    using fl53 by (simp add: be k_def)
  have ulp: "(2::real) powi (binexp (of_int n) - 52) = 1 / 2 ^ k"
    unfolding e by (simp add: power_int_minus field_simps)
  have q: "real_of_int n / (1 / 2 ^ k) = of_int (n * 2 ^ k)"
    by simp
  have "fl_round (of_int n) = of_int (round_half_even (of_int (n * 2 ^ k))) * (1 / 2 ^ k)"
    using False by (simp only: fl_round_def Let_def ulp q of_int_eq_0_iff if_False)
  also have "\<dots> = of_int n"
    by (simp only: round_half_even_of_int) simp
  finally show ?thesis .
qed

lemma fl_round_simps:
  "fl_round 0 = 0" "fl_round 1 = 1" "fl_round 2 = 2" "fl_round (- 1) = - 1"
  using fl_round_of_int [of 0] fl_round_of_int [of 1] fl_round_of_int [of 2]
    fl_round_of_int [of "- 1"]
  by simp_all

lemma fl_round_half: "fl_round (1 / 2) = 1 / 2"
  by (simp add: fl_round_def binexp_def compute_floorlog round_half_even_def Let_def)

lemma float_of_int_exact: "\<bar>n\<bar> < 2 ^ 53 \<Longrightarrow> float_of_int n = of_int n"
  by (simp add: float_of_int_def fl_round_of_int)

lemma sint32_diff_bound:
  fixes a b :: "32 word"
  shows "\<bar>sint b - sint a\<bar> < 2 ^ 53"
proof -
  have "- (2 ^ 31) \<le> sint a" "sint a < 2 ^ 31" "- (2 ^ 31) \<le> sint b" "sint b < 2 ^ 31"
    using sint_ge [of a] sint_lt [of a] sint_ge [of b] sint_lt [of b] by simp_all
  then show ?thesis by simp
qed

lemma normalize_value_signed:
  assumes "lmax \<noteq> lmin" "lmin < 0" "\<bar>lmax - lmin\<bar> < 2 ^ 53" "\<bar>v - lmin\<bar> < 2 ^ 53"
  shows "normalize_value v lmin lmax =
           Inr (Some (fl_round (fl_round (fl_round (of_int (v - lmin) / of_int (lmax - lmin)) * 2) - 1)))"
  using assms
  by (simp add: normalize_value_def float_of_int_exact fl_div_def fl_mul_def fl_sub_def Let_def)

lemma normalize_value_unsigned:
  assumes "lmax \<noteq> lmin" "\<not> lmin < 0" "\<bar>lmax - lmin\<bar> < 2 ^ 53" "\<bar>v - lmin\<bar> < 2 ^ 53"
  shows "normalize_value v lmin lmax =
           Inr (Some (fl_round (of_int (v - lmin) / of_int (lmax - lmin))))"
  using assms
  by (simp add: normalize_value_def float_of_int_exact fl_div_def Let_def)

lemma normalize_signed_endpoints:
  fixes a b :: int
  assumes "a < 0" "0 \<le> b" "b - a < 2 ^ 53"
  shows "normalize_value a a b = Inr (Some (- 1))"
    and "normalize_value b a b = Inr (Some 1)"
    and "2 * v = a + b \<Longrightarrow> normalize_value v a b = Inr (Some 0)"
proof -
  from assms have ne: "b \<noteq> a" and d: "\<bar>b - a\<bar> < 2 ^ 53" by simp_all
  have z: "\<bar>a - a\<bar> < 2 ^ 53" by simp
  have ne': "real_of_int (b - a) \<noteq> 0" using ne by simp
  then have q1: "real_of_int (b - a) / real_of_int (b - a) = 1" by (rule divide_self)
  show "normalize_value a a b = Inr (Some (- 1))"
    using normalize_value_signed [OF ne assms(1) d z] by (simp add: fl_round_simps)
  show "normalize_value b a b = Inr (Some 1)"
    using normalize_value_signed [OF ne assms(1) d d]
    by (simp only: q1) (simp add: fl_round_simps)
  show "normalize_value v a b = Inr (Some 0)" if v: "2 * v = a + b"
  proof -
    from v have k: "b - a = 2 * (v - a)" by simp
    have vne: "real_of_int (v - a) \<noteq> 0" using k ne by auto
    have vb: "\<bar>v - a\<bar> < 2 ^ 53" using d k by simp
    have h: "real_of_int (v - a) / real_of_int (b - a) = 1 / 2"
      unfolding k using vne by simp
    show ?thesis
      using normalize_value_signed [OF ne assms(1) d vb]
      by (simp only: h) (simp add: fl_round_simps fl_round_half)
  qed
qed

lemma normalize_unsigned_endpoints:
  fixes a b :: int
  assumes "0 \<le> a" "a < b" "b - a < 2 ^ 53"
  shows "normalize_value a a b = Inr (Some 0)"
    and "normalize_value b a b = Inr (Some 1)"
proof -
  from assms have ne: "b \<noteq> a" and nn: "\<not> a < 0" and d: "\<bar>b - a\<bar> < 2 ^ 53" by simp_all
  have z: "\<bar>a - a\<bar> < 2 ^ 53" by simp
  have ne': "real_of_int (b - a) \<noteq> 0" using ne by simp
  then have q1: "real_of_int (b - a) / real_of_int (b - a) = 1" by (rule divide_self)
  show "normalize_value a a b = Inr (Some 0)"
    using normalize_value_unsigned [OF ne nn d z] by (simp add: fl_round_simps)
  show "normalize_value b a b = Inr (Some 1)"
    using normalize_value_unsigned [OF ne nn d d]
    by (simp only: q1) (simp add: fl_round_simps)
qed

text \<open>
  C3. For 32-bit logical bounds, \<^verbatim>\<open>normalize_value\<close> maps the endpoints exactly: for
  \<open>logical_min < 0 \<le> logical_max\<close> the minimum gives \<open>-1.0\<close>, the maximum \<open>1.0\<close>
  and an integer midpoint \<open>0.0\<close>; for \<open>0 \<le> logical_min < logical_max\<close> the minimum
  gives \<open>0.0\<close> and the maximum \<open>1.0\<close>. The results are those of the rounded binary64
  operations, and they are exact.
\<close>

theorem normalize_endpoints:
  fixes logical_min logical_max :: LONG
  shows "(sint logical_min < 0 \<and> 0 \<le> sint logical_max \<longrightarrow>
            normalize_value (sint logical_min) (sint logical_min) (sint logical_max) = Inr (Some (- 1))
          \<and> normalize_value (sint logical_max) (sint logical_min) (sint logical_max) = Inr (Some 1)
          \<and> (\<forall>v. 2 * v = sint logical_min + sint logical_max \<longrightarrow>
                normalize_value v (sint logical_min) (sint logical_max) = Inr (Some 0)))
       \<and> (0 \<le> sint logical_min \<and> sint logical_min < sint logical_max \<longrightarrow>
            normalize_value (sint logical_min) (sint logical_min) (sint logical_max) = Inr (Some 0)
          \<and> normalize_value (sint logical_max) (sint logical_min) (sint logical_max) = Inr (Some 1))"
proof -
  have d: "sint logical_max - sint logical_min < 2 ^ 53"
    using sint32_diff_bound [of logical_max logical_min] by linarith
  show ?thesis
    using normalize_signed_endpoints [OF _ _ d] normalize_unsigned_endpoints [OF _ _ d]
    by blast
qed

theorem normalize_endpoints_witness:
  "normalize_value (- 32768) (- 32768) 32767 = Inr (Some (- 1))
   \<and> normalize_value 32767 (- 32768) 32767 = Inr (Some 1)
   \<and> normalize_value 0 (- 100) 100 = Inr (Some 0)
   \<and> normalize_value 0 0 255 = Inr (Some 0)
   \<and> normalize_value 255 0 255 = Inr (Some 1)"
proof -
  have s: "sint (- 32768 :: LONG) = - 32768" "sint (32767 :: LONG) = 32767"
    "sint (- 100 :: LONG) = - 100" "sint (100 :: LONG) = 100"
    "sint (0 :: LONG) = 0" "sint (255 :: LONG) = 255"
    by simp_all
  from normalize_endpoints [of "- 32768" 32767] normalize_endpoints [of "- 100" 100]
    normalize_endpoints [of 0 255]
  show ?thesis
    unfolding s by simp
qed

section \<open>A fault while one report is decoded\<close>

text \<open>
  C4. If decoding a report of a batch raises, the loop writes the row of that report
  with empty axes and buttons, and the rows of the reports before and after it are
  what the loop writes for them without the faulty report: every report of the batch
  yields one row.
\<close>

theorem decode_fault_contained:
  assumes "ds_preparsed ds = Some preparsed" and "ds_value_caps ds \<noteq> []"
    and "decode_hid_report api bad preparsed (ds_value_caps ds) (ds_button_caps ds) = Inl e"
  shows "writer (reports_loop api ds h (before @ bad # after) L) =
           writer (reports_loop api ds h before L)
           @ [\<lparr>timestamp_ms = time_ms api, device_handle = h, device_name = ds_name ds,
               usage_page = ds_usage_page ds, usage = ds_usage ds,
               report_size = length bad, report_hex = bad,
               axes_json = Map.empty, buttons_json = []\<rparr>]
           @ writer (reports_loop api ds h after (L\<lparr>writer := []\<rparr>))
         \<and> length (writer (reports_loop api ds h (before @ bad # after) L)) =
             length (writer L) + length before + 1 + length after"
  using assms
  by (simp add: reports_loop_rows report_row_def decode_or_empty_def)

theorem decode_fault_contained_witness:
  "decode_hid_report api_fault [255] [1] (ds_value_caps pad) (ds_button_caps pad) = Inl OSError
   \<and> writer (reports_loop api_fault pad 7 [[1], [255], [2]] plain_logger) =
       [\<lparr>timestamp_ms = 0, device_handle = 7, device_name = ''pad'', usage_page = None,
         usage = None, report_size = 1, report_hex = [1],
         axes_json = [''x'' \<mapsto> \<lparr>raw = 0, norm' = None, min' = 0, max' = 0\<rparr>],
         buttons_json = []\<rparr>,
        \<lparr>timestamp_ms = 0, device_handle = 7, device_name = ''pad'', usage_page = None,
         usage = None, report_size = 1, report_hex = [255],
         axes_json = Map.empty, buttons_json = []\<rparr>,
        \<lparr>timestamp_ms = 0, device_handle = 7, device_name = ''pad'', usage_page = None,
         usage = None, report_size = 1, report_hex = [2],
         axes_json = [''x'' \<mapsto> \<lparr>raw = 0, norm' = None, min' = 0, max' = 0\<rparr>],
         buttons_json = []\<rparr>]"
proof -
  have h1: "ds_preparsed pad = Some [1]" and h2: "ds_value_caps pad \<noteq> []"
    by (simp_all add: pad_def)
  have h3: "decode_hid_report api_fault [255] [1] (ds_value_caps pad) (ds_button_caps pad)
              = Inl OSError"
    by (simp add: decode_hid_report_def pad_def axis_cap_def api_fault_def example_api_def
          value_cap_usages_def NotRange_Usage_def USAGE_PAGE_GENERIC_DESKTOP_def
          AXIS_USAGE_NAMES_def USAGE_X_def hid_get_usage_value_def)
  have good: "decode_hid_report api_fault r [1] (ds_value_caps pad) (ds_button_caps pad)
                = Inr ([''x'' \<mapsto> \<lparr>raw = 0, norm' = None, min' = 0, max' = 0\<rparr>], [])"
    if "r \<noteq> [255]" for r
    using that
    by (simp add: decode_hid_report_def pad_def axis_cap_def api_fault_def example_api_def
          value_cap_usages_def NotRange_Usage_def USAGE_PAGE_GENERIC_DESKTOP_def
          AXIS_USAGE_NAMES_def USAGE_X_def hid_get_usage_value_def check_hidp_def
          normalize_value_def sorted_set_def)
  have before: "writer (reports_loop api_fault pad 7 [[1]] plain_logger) =
       [\<lparr>timestamp_ms = 0, device_handle = 7, device_name = ''pad'', usage_page = None,
         usage = None, report_size = 1, report_hex = [1],
         axes_json = [''x'' \<mapsto> \<lparr>raw = 0, norm' = None, min' = 0, max' = 0\<rparr>],
         buttons_json = []\<rparr>]"
    using good [of "[1]"] h1 h2
    by (simp add: plain_logger_def RawInputLogger_init_def write_event_def
          ds_usage_page_def ds_usage_def) (simp add: pad_def api_fault_def example_api_def)
  have after: "writer (reports_loop api_fault pad 7 [[2]] (plain_logger\<lparr>writer := []\<rparr>)) =
       [\<lparr>timestamp_ms = 0, device_handle = 7, device_name = ''pad'', usage_page = None,
         usage = None, report_size = 1, report_hex = [2],
         axes_json = [''x'' \<mapsto> \<lparr>raw = 0, norm' = None, min' = 0, max' = 0\<rparr>],
         buttons_json = []\<rparr>]"
    using good [of "[2]"] h1 h2
    by (simp add: plain_logger_def RawInputLogger_init_def write_event_def
          ds_usage_page_def ds_usage_def) (simp add: pad_def api_fault_def example_api_def)
  have meta: "time_ms api_fault = 0" "ds_name pad = ''pad''" "ds_usage_page pad = None"
    "ds_usage pad = None"
    by (simp_all add: pad_def api_fault_def example_api_def ds_usage_page_def ds_usage_def)
  from decode_fault_contained [OF h1 h2 h3, of 7 "[[1]]" "[[2]]" plain_logger]
  have "writer (reports_loop api_fault pad 7 ([[1]] @ [255] # [[2]]) plain_logger) =
          writer (reports_loop api_fault pad 7 [[1]] plain_logger)
          @ [\<lparr>timestamp_ms = 0, device_handle = 7, device_name = ''pad'', usage_page = None,
              usage = None, report_size = 1, report_hex = [255],
              axes_json = Map.empty, buttons_json = []\<rparr>]
          @ writer (reports_loop api_fault pad 7 [[2]] (plain_logger\<lparr>writer := []\<rparr>))"
    by (simp only: meta) simp
  with before after h3 show ?thesis
    by simp
qed

section \<open>The decoded axes\<close>

lemma axis_names_cases:
  assumes "AXIS_USAGE_NAMES u = Some name"
  shows "(u, name) \<in> {(0x30, ''x''), (0x31, ''y''), (0x32, ''z''), (0x33, ''rx''), (0x34, ''ry''),
                       (0x35, ''rz''), (0x36, ''slider''), (0x37, ''dial''), (0x38, ''wheel''),
                       (0x39, ''hat'')}"
  using assms
  by (simp add: AXIS_USAGE_NAMES_def USAGE_X_def USAGE_Y_def USAGE_Z_def USAGE_RX_def
        USAGE_RY_def USAGE_RZ_def USAGE_SLIDER_def USAGE_DIAL_def USAGE_WHEEL_def USAGE_HAT_def
        split: if_splits)

lemma axis_names_inj:
  assumes "AXIS_USAGE_NAMES u = Some name" "AXIS_USAGE_NAMES u' = Some name"
  shows "u = u'"
  using axis_names_cases [OF assms(1)] axis_names_cases [OF assms(2)]
  by auto

lemma axis_names_ten:
  assumes "AXIS_USAGE_NAMES u = Some name"
  shows "name \<in> {''x'', ''y'', ''z'', ''rx'', ''ry'', ''rz'', ''slider'', ''dial'', ''wheel'', ''hat''}"
  using axis_names_cases [OF assms] by auto

lemma usages_loop_other:
  assumes "usages_loop api report preparsed cap us ax = Inr ax'"
    and "\<forall>u \<in> set us. AXIS_USAGE_NAMES u = Some name \<longrightarrow>
           hid_get_usage_value api preparsed report (uint (vc_UsagePage cap)) u = Inr None"
  shows "ax' name = ax name"
  using assms
proof (induction us arbitrary: ax)
  case Nil
  then show ?case by simp
next
  case (Cons u us)
  show ?case
  proof (cases "AXIS_USAGE_NAMES u")
    case None
    with Cons show ?thesis by simp
  next
    case (Some n)
    show ?thesis
    proof (cases "hid_get_usage_value api preparsed report (uint (vc_UsagePage cap)) u")
      case (Inl e)
      with Some Cons.prems show ?thesis by simp
    next
      case (Inr r)
      show ?thesis
      proof (cases r)
        case None
        with Some Inr Cons show ?thesis by simp
      next
        case v: (Some v)
        with Some Inr Cons.prems(2) have ne: "n \<noteq> name" by auto
        show ?thesis
        proof (cases "normalize_value v (sint (vc_LogicalMin cap)) (sint (vc_LogicalMax cap))")
          case (Inl e)
          with Some Inr v Cons.prems show ?thesis by simp
        next
          case nrm: (Inr nrm)
          from Cons.prems(1) Some Inr v nrm
          have "usages_loop api report preparsed cap us
                  (ax(n \<mapsto> \<lparr>raw = v, norm' = nrm, min' = sint (vc_LogicalMin cap),
                               max' = sint (vc_LogicalMax cap)\<rparr>)) = Inr ax'"
            by simp
          from Cons.IH [OF this] Cons.prems(2) ne show ?thesis by simp
        qed
      qed
    qed
  qed
qed

lemma usages_loop_reach:
  assumes "usages_loop api report preparsed cap us ax = Inr ax'"
    and "u \<in> set us" "AXIS_USAGE_NAMES u = Some name"
  shows "\<exists>r. hid_get_usage_value api preparsed report (uint (vc_UsagePage cap)) u = Inr r"
  using assms
proof (induction us arbitrary: ax)
  case Nil
  then show ?case by simp
next
  case (Cons u' us)
  show ?case
  proof (cases "u' = u")
    case True
    with Cons.prems show ?thesis
      by (cases "hid_get_usage_value api preparsed report (uint (vc_UsagePage cap)) u") auto
  next
    case False
    with Cons.prems have mem: "u \<in> set us" by simp
    from Cons.prems(1) obtain ax1 where "usages_loop api report preparsed cap us ax1 = Inr ax'"
      by (auto split: option.splits sum.splits)
    from Cons.IH [OF this mem Cons.prems(3)] show ?thesis .
  qed
qed

lemma usages_loop_hit:
  assumes "usages_loop api report preparsed cap us ax = Inr ax'"
    and "u \<in> set us" "AXIS_USAGE_NAMES u = Some name"
    and "hid_get_usage_value api preparsed report (uint (vc_UsagePage cap)) u = Inr (Some v)"
  shows "\<exists>nrm. normalize_value v (sint (vc_LogicalMin cap)) (sint (vc_LogicalMax cap)) = Inr nrm
           \<and> ax' name = Some \<lparr>raw = v, norm' = nrm, min' = sint (vc_LogicalMin cap),
                                max' = sint (vc_LogicalMax cap)\<rparr>"
  using assms
proof (induction us arbitrary: ax)
  case Nil
  then show ?case by simp
next
  case (Cons u' us)
  show ?case
  proof (cases "u \<in> set us")
    case True
    from Cons.prems(1) obtain ax1 where "usages_loop api report preparsed cap us ax1 = Inr ax'"
      by (auto split: option.splits sum.splits)
    from Cons.IH [OF this True Cons.prems(3,4)] show ?thesis .
  next
    case False
    with Cons.prems(2) have eq: "u' = u" by simp
    from Cons.prems(1,3,4) eq obtain nrm where
      nrm: "normalize_value v (sint (vc_LogicalMin cap)) (sint (vc_LogicalMax cap)) = Inr nrm"
      and rest: "usages_loop api report preparsed cap us
                   (ax(name \<mapsto> \<lparr>raw = v, norm' = nrm, min' = sint (vc_LogicalMin cap),
                                  max' = sint (vc_LogicalMax cap)\<rparr>)) = Inr ax'"
      by (auto split: sum.splits)
    have "\<forall>w \<in> set us. AXIS_USAGE_NAMES w = Some name \<longrightarrow>
            hid_get_usage_value api preparsed report (uint (vc_UsagePage cap)) w = Inr None"
      using False axis_names_inj [OF Cons.prems(3)] by auto
    from usages_loop_other [OF rest this] nrm show ?thesis by simp
  qed
qed

lemma value_caps_loop_append:
  "value_caps_loop api report preparsed (xs @ ys) ax =
     (case value_caps_loop api report preparsed xs ax of
        Inl e \<Rightarrow> Inl e
      | Inr a \<Rightarrow> value_caps_loop api report preparsed ys a)"
  by (induction xs arbitrary: ax) (auto split: sum.splits)

lemma value_caps_loop_other:
  assumes "value_caps_loop api report preparsed caps ax = Inr ax'"
    and "\<forall>c \<in> set caps. \<forall>u. uint (vc_UsagePage c) = USAGE_PAGE_GENERIC_DESKTOP
           \<and> u \<in> set (value_cap_usages c) \<and> AXIS_USAGE_NAMES u = Some name \<longrightarrow>
           hid_get_usage_value api preparsed report USAGE_PAGE_GENERIC_DESKTOP u = Inr None"
  shows "ax' name = ax name"
  using assms
proof (induction caps arbitrary: ax)
  case Nil
  then show ?case by simp
next
  case (Cons c caps)
  show ?case
  proof (cases "uint (vc_UsagePage c) = USAGE_PAGE_GENERIC_DESKTOP")
    case False
    with Cons show ?thesis by simp
  next
    case True
    with Cons.prems(1) obtain ax1 where
      a: "usages_loop api report preparsed c (value_cap_usages c) ax = Inr ax1"
      and b: "value_caps_loop api report preparsed caps ax1 = Inr ax'"
      by (auto split: sum.splits)
    have "\<forall>u \<in> set (value_cap_usages c). AXIS_USAGE_NAMES u = Some name \<longrightarrow>
            hid_get_usage_value api preparsed report (uint (vc_UsagePage c)) u = Inr None"
      using Cons.prems(2) True by simp
    from usages_loop_other [OF a this] have "ax1 name = ax name" .
    moreover from Cons.IH [OF b] Cons.prems(2) have "ax' name = ax1 name" by simp
    ultimately show ?thesis by simp
  qed
qed

lemma value_caps_loop_reach:
  assumes "value_caps_loop api report preparsed caps ax = Inr ax'"
    and "c \<in> set caps" "uint (vc_UsagePage c) = USAGE_PAGE_GENERIC_DESKTOP"
    and "u \<in> set (value_cap_usages c)" "AXIS_USAGE_NAMES u = Some name"
  shows "\<exists>r. hid_get_usage_value api preparsed report USAGE_PAGE_GENERIC_DESKTOP u = Inr r"
proof -
  from assms(2) obtain pre post where sp: "caps = pre @ c # post"
    by (auto dest: split_list)
  from assms(1) obtain a1 a2 where
    "usages_loop api report preparsed c (value_cap_usages c) a1 = Inr a2"
    unfolding sp value_caps_loop_append using assms(3)
    by (auto split: sum.splits)
  from usages_loop_reach [OF this assms(4,5)] assms(3) show ?thesis by simp
qed

lemma value_caps_loop_last:
  assumes "value_caps_loop api report preparsed (pre @ cap # post) ax = Inr ax'"
    and "uint (vc_UsagePage cap) = USAGE_PAGE_GENERIC_DESKTOP"
    and "u \<in> set (value_cap_usages cap)" "AXIS_USAGE_NAMES u = Some name"
    and "hid_get_usage_value api preparsed report USAGE_PAGE_GENERIC_DESKTOP u = Inr (Some v)"
    and "\<forall>c \<in> set post. \<not> (uint (vc_UsagePage c) = USAGE_PAGE_GENERIC_DESKTOP
                               \<and> u \<in> set (value_cap_usages c))"
  shows "\<exists>nrm. normalize_value v (sint (vc_LogicalMin cap)) (sint (vc_LogicalMax cap)) = Inr nrm
           \<and> ax' name = Some \<lparr>raw = v, norm' = nrm, min' = sint (vc_LogicalMin cap),
                                max' = sint (vc_LogicalMax cap)\<rparr>"
proof -
  from assms(1,2) obtain a1 a2 where
    a: "usages_loop api report preparsed cap (value_cap_usages cap) a1 = Inr a2"
    and b: "value_caps_loop api report preparsed post a2 = Inr ax'"
    unfolding value_caps_loop_append by (auto split: sum.splits)
  have hv: "hid_get_usage_value api preparsed report (uint (vc_UsagePage cap)) u = Inr (Some v)"
    using assms(2,5) by simp
  from usages_loop_hit [OF a assms(3,4) hv] obtain nrm where
    nrm: "normalize_value v (sint (vc_LogicalMin cap)) (sint (vc_LogicalMax cap)) = Inr nrm"
    and a2: "a2 name = Some \<lparr>raw = v, norm' = nrm, min' = sint (vc_LogicalMin cap),
                              max' = sint (vc_LogicalMax cap)\<rparr>"
    by blast
  have "\<forall>c \<in> set post. \<forall>w. uint (vc_UsagePage c) = USAGE_PAGE_GENERIC_DESKTOP
           \<and> w \<in> set (value_cap_usages c) \<and> AXIS_USAGE_NAMES w = Some name \<longrightarrow>
           hid_get_usage_value api preparsed report USAGE_PAGE_GENERIC_DESKTOP w = Inr None"
    using assms(6) axis_names_inj [OF assms(4)] by blast
  from value_caps_loop_other [OF b this] nrm a2 show ?thesis by simp
qed

lemma normalize_degenerate: "normalize_value v m m = Inr None"
  by (simp add: normalize_value_def)

lemmas decode_eval =
  decode_hid_report_def value_cap_usages_def axis_cap_def NotRange_Usage_def
  USAGE_PAGE_GENERIC_DESKTOP_def AXIS_USAGE_NAMES_def USAGE_X_def USAGE_Y_def USAGE_Z_def
  USAGE_RX_def USAGE_RY_def USAGE_RZ_def USAGE_SLIDER_def USAGE_DIAL_def USAGE_WHEEL_def
  USAGE_HAT_def hid_get_usage_value_def check_hidp_def HIDP_STATUS_SUCCESS_def sorted_set_def

text \<open>
  C5. Every entry of the decoded axes comes from a value capability of the
  generic-desktop page and a usage of the table \<^verbatim>\<open>AXIS_USAGE_NAMES\<close>, is keyed by
  the name the table gives that usage (one of the ten names), and holds the raw value
  of the usage with the logical bounds of the capability; nothing else produces an
  entry. When several capabilities yield a reading for a name, the entry is the one
  of the last of them: a later reading replaces an earlier one.
\<close>

theorem decode_axes:
  assumes "decode_hid_report api report preparsed value_caps button_caps = Inr (axes, buttons)"
  shows "(\<forall>name rd. axes name = Some rd \<longrightarrow>
            name \<in> {''x'', ''y'', ''z'', ''rx'', ''ry'', ''rz'', ''slider'', ''dial'', ''wheel'', ''hat''}
            \<and> (\<exists>cap \<in> set value_caps. \<exists>u v nrm.
                  uint (vc_UsagePage cap) = USAGE_PAGE_GENERIC_DESKTOP
                  \<and> u \<in> set (value_cap_usages cap)
                  \<and> AXIS_USAGE_NAMES u = Some name
                  \<and> hid_get_usage_value api preparsed report USAGE_PAGE_GENERIC_DESKTOP u = Inr (Some v)
                  \<and> normalize_value v (sint (vc_LogicalMin cap)) (sint (vc_LogicalMax cap)) = Inr nrm
                  \<and> rd = \<lparr>raw = v, norm' = nrm, min' = sint (vc_LogicalMin cap),
                          max' = sint (vc_LogicalMax cap)\<rparr>))
       \<and> (\<forall>pre cap post u name v.
            value_caps = pre @ cap # post
            \<and> uint (vc_UsagePage cap) = USAGE_PAGE_GENERIC_DESKTOP
            \<and> u \<in> set (value_cap_usages cap)
            \<and> AXIS_USAGE_NAMES u = Some name
            \<and> hid_get_usage_value api preparsed report USAGE_PAGE_GENERIC_DESKTOP u = Inr (Some v)
            \<and> (\<forall>c \<in> set post. \<not> (uint (vc_UsagePage c) = USAGE_PAGE_GENERIC_DESKTOP
                                     \<and> u \<in> set (value_cap_usages c)))
            \<longrightarrow> (\<exists>nrm. normalize_value v (sint (vc_LogicalMin cap)) (sint (vc_LogicalMax cap)) = Inr nrm
                   \<and> axes name = Some \<lparr>raw = v, norm' = nrm, min' = sint (vc_LogicalMin cap),
                                        max' = sint (vc_LogicalMax cap)\<rparr>))"
proof -
  from assms have loop: "value_caps_loop api report preparsed value_caps Map.empty = Inr axes"
    by (auto simp: decode_hid_report_def split: sum.splits)
  have only: "name \<in> {''x'', ''y'', ''z'', ''rx'', ''ry'', ''rz'', ''slider'', ''dial'', ''wheel'', ''hat''}
            \<and> (\<exists>cap \<in> set value_caps. \<exists>u v nrm.
                  uint (vc_UsagePage cap) = USAGE_PAGE_GENERIC_DESKTOP
                  \<and> u \<in> set (value_cap_usages cap)
                  \<and> AXIS_USAGE_NAMES u = Some name
                  \<and> hid_get_usage_value api preparsed report USAGE_PAGE_GENERIC_DESKTOP u = Inr (Some v)
                  \<and> normalize_value v (sint (vc_LogicalMin cap)) (sint (vc_LogicalMax cap)) = Inr nrm
                  \<and> rd = \<lparr>raw = v, norm' = nrm, min' = sint (vc_LogicalMin cap),
                          max' = sint (vc_LogicalMax cap)\<rparr>)"
    if some: "axes name = Some rd" for name rd
  proof -
    have "\<not> (\<forall>c \<in> set value_caps. \<forall>u. uint (vc_UsagePage c) = USAGE_PAGE_GENERIC_DESKTOP
           \<and> u \<in> set (value_cap_usages c) \<and> AXIS_USAGE_NAMES u = Some name \<longrightarrow>
           hid_get_usage_value api preparsed report USAGE_PAGE_GENERIC_DESKTOP u = Inr None)"
      using value_caps_loop_other [OF loop, of name] some by auto
    then obtain c u where c: "c \<in> set value_caps"
      "uint (vc_UsagePage c) = USAGE_PAGE_GENERIC_DESKTOP" "u \<in> set (value_cap_usages c)"
      and u: "AXIS_USAGE_NAMES u = Some name"
      and nn: "hid_get_usage_value api preparsed report USAGE_PAGE_GENERIC_DESKTOP u \<noteq> Inr None"
      by blast
    from value_caps_loop_reach [OF loop c u] nn obtain v where
      v: "hid_get_usage_value api preparsed report USAGE_PAGE_GENERIC_DESKTOP u = Inr (Some v)"
      by (metis option.exhaust)
    let ?P = "\<lambda>z. uint (vc_UsagePage z) = USAGE_PAGE_GENERIC_DESKTOP \<and> u \<in> set (value_cap_usages z)"
    from c have "\<exists>z \<in> set value_caps. ?P z" by blast
    from split_list_last_prop [OF this] obtain pre cap post where
      sp: "value_caps = pre @ cap # post" and cap: "?P cap" and post: "\<forall>z \<in> set post. \<not> ?P z"
      by blast
    from value_caps_loop_last [OF loop [unfolded sp] _ _ u v post] cap obtain nrm where
      nrm: "normalize_value v (sint (vc_LogicalMin cap)) (sint (vc_LogicalMax cap)) = Inr nrm"
      and ax: "axes name = Some \<lparr>raw = v, norm' = nrm, min' = sint (vc_LogicalMin cap),
                          max' = sint (vc_LogicalMax cap)\<rparr>"
      by blast
    have mem: "cap \<in> set value_caps" using sp by simp
    have rd: "rd = \<lparr>raw = v, norm' = nrm, min' = sint (vc_LogicalMin cap),
                    max' = sint (vc_LogicalMax cap)\<rparr>"
      using some ax by simp
    have "\<exists>u v nrm.
            uint (vc_UsagePage cap) = USAGE_PAGE_GENERIC_DESKTOP
            \<and> u \<in> set (value_cap_usages cap)
            \<and> AXIS_USAGE_NAMES u = Some name
            \<and> hid_get_usage_value api preparsed report USAGE_PAGE_GENERIC_DESKTOP u = Inr (Some v)
            \<and> normalize_value v (sint (vc_LogicalMin cap)) (sint (vc_LogicalMax cap)) = Inr nrm
            \<and> rd = \<lparr>raw = v, norm' = nrm, min' = sint (vc_LogicalMin cap),
                    max' = sint (vc_LogicalMax cap)\<rparr>"
      using cap u v nrm rd by (intro exI [of _ u] exI [of _ v] exI [of _ nrm]) simp
    with mem axis_names_ten [OF u] show ?thesis
      by (intro conjI bexI [of _ cap])
  qed
  have last: "\<exists>nrm. normalize_value v (sint (vc_LogicalMin cap)) (sint (vc_LogicalMax cap)) = Inr nrm
                   \<and> axes name = Some \<lparr>raw = v, norm' = nrm, min' = sint (vc_LogicalMin cap),
                                        max' = sint (vc_LogicalMax cap)\<rparr>"
    if "value_caps = pre @ cap # post"
      "uint (vc_UsagePage cap) = USAGE_PAGE_GENERIC_DESKTOP"
      "u \<in> set (value_cap_usages cap)"
      "AXIS_USAGE_NAMES u = Some name"
      "hid_get_usage_value api preparsed report USAGE_PAGE_GENERIC_DESKTOP u = Inr (Some v)"
      "\<forall>c \<in> set post. \<not> (uint (vc_UsagePage c) = USAGE_PAGE_GENERIC_DESKTOP
                                     \<and> u \<in> set (value_cap_usages c))"
    for pre cap post u name v
    using value_caps_loop_last [OF loop [unfolded that(1)] that(2-6)] .
  from only last show ?thesis by blast
qed

theorem decode_axes_witness:
  "decode_hid_report api_zero [0] [1]
       [axis_cap 0x30 0 0, axis_cap 0x40 0 9, (axis_cap 0x31 0 9)\<lparr>vc_UsagePage := 2\<rparr>,
        axis_cap 0x30 0 255] []
     = Inr ([''x'' \<mapsto> \<lparr>raw = 0, norm' = Some 0, min' = 0, max' = 255\<rparr>], [])"
proof -
  have e: "decode_hid_report api_zero [0] [1]
       [axis_cap 0x30 0 0, axis_cap 0x40 0 9, (axis_cap 0x31 0 9)\<lparr>vc_UsagePage := 2\<rparr>,
        axis_cap 0x30 0 255] []
     = Inr ([''x'' \<mapsto> \<lparr>raw = 0, norm' = Some 0, min' = 0, max' = 255\<rparr>], [])"
    using normalize_unsigned_endpoints(1) [of 0 255]
    by (simp add: decode_eval api_zero_def example_api_def normalize_degenerate)
  from decode_axes [OF e] e show ?thesis by simp
qed

section \<open>Degenerate logical ranges\<close>

text \<open>
  C8. When the logical maximum of a value capability equals its logical minimum,
  \<^verbatim>\<open>normalize_value\<close> returns \<^verbatim>\<open>None\<close> for every value, and the reading of the axis is
  still recorded, with the raw value, no normalised value and the two bounds.
\<close>

theorem degenerate_range_recorded:
  assumes "decode_hid_report api report preparsed (pre @ cap # post) button_caps = Inr (axes, buttons)"
    and "vc_LogicalMax cap = vc_LogicalMin cap"
    and "uint (vc_UsagePage cap) = USAGE_PAGE_GENERIC_DESKTOP"
    and "u \<in> set (value_cap_usages cap)" and "AXIS_USAGE_NAMES u = Some name"
    and "hid_get_usage_value api preparsed report USAGE_PAGE_GENERIC_DESKTOP u = Inr (Some v)"
    and "\<forall>c \<in> set post. \<not> (uint (vc_UsagePage c) = USAGE_PAGE_GENERIC_DESKTOP
                               \<and> u \<in> set (value_cap_usages c))"
  shows "(\<forall>w. normalize_value w (sint (vc_LogicalMin cap)) (sint (vc_LogicalMax cap)) = Inr None)
       \<and> axes name = Some \<lparr>raw = v, norm' = None, min' = sint (vc_LogicalMin cap),
                            max' = sint (vc_LogicalMax cap)\<rparr>"
proof -
  from assms(1) have loop:
    "value_caps_loop api report preparsed (pre @ cap # post) Map.empty = Inr axes"
    by (auto simp: decode_hid_report_def split: sum.splits)
  have deg: "normalize_value w (sint (vc_LogicalMin cap)) (sint (vc_LogicalMax cap)) = Inr None"
    for w
    using assms(2) by (simp add: normalize_degenerate)
  from value_caps_loop_last [OF loop assms(3-7)] deg show ?thesis
    by auto
qed

theorem degenerate_range_recorded_witness:
  "vc_LogicalMax (axis_cap 0x32 5 5) = vc_LogicalMin (axis_cap 0x32 5 5)
   \<and> decode_hid_report api_seven [0] [1] [axis_cap 0x32 5 5] []
       = Inr ([''z'' \<mapsto> \<lparr>raw = 7, norm' = None, min' = 5, max' = 5\<rparr>], [])
   \<and> normalize_value 7 5 5 = Inr None"
proof -
  have e: "decode_hid_report api_seven [0] [1] ([] @ axis_cap 0x32 5 5 # []) []
     = Inr ([''z'' \<mapsto> \<lparr>raw = 7, norm' = None, min' = 5, max' = 5\<rparr>], [])"
    by (simp add: decode_eval api_seven_def example_api_def normalize_degenerate)
  have h: "vc_LogicalMax (axis_cap 0x32 5 5) = vc_LogicalMin (axis_cap 0x32 5 5)"
    "uint (vc_UsagePage (axis_cap 0x32 5 5)) = USAGE_PAGE_GENERIC_DESKTOP"
    "0x32 \<in> set (value_cap_usages (axis_cap 0x32 5 5))"
    "AXIS_USAGE_NAMES 0x32 = Some ''z''"
    "hid_get_usage_value api_seven [1] [0] USAGE_PAGE_GENERIC_DESKTOP 0x32 = Inr (Some 7)"
    "\<forall>c \<in> set []. \<not> (uint (vc_UsagePage c) = USAGE_PAGE_GENERIC_DESKTOP
                               \<and> 0x32 \<in> set (value_cap_usages c))"
    by (simp_all add: decode_eval api_seven_def example_api_def)
  have s: "sint (vc_LogicalMin (axis_cap 0x32 5 5)) = 5" "sint (vc_LogicalMax (axis_cap 0x32 5 5)) = 5"
    by (simp_all add: axis_cap_def)
  from degenerate_range_recorded [OF e h] e h(1) s show ?thesis
    by simp
qed

section \<open>The x axis of a 16-bit signed stick at rest\<close>

lemma normalize_x_zero:
  "normalize_value 0 (- 32768) 32767 = Inr (Some (68720525328 / 2 ^ 52))"
proof -
  have r1: "fl_round (32768 / 65535) = 4503668347895824 / 2 ^ 53"
    by (simp add: fl_round_def binexp_def compute_floorlog round_half_even_def Let_def)
  have r2: "fl_round (4503668347895824 / 2 ^ 53 * 2) = 4503668347895824 / 2 ^ 52"
    by (simp add: fl_round_def binexp_def compute_floorlog round_half_even_def Let_def)
  have r3: "fl_round (4503668347895824 / 2 ^ 52 - 1) = 68720525328 / 2 ^ 52"
    by (simp add: fl_round_def binexp_def compute_floorlog round_half_even_def Let_def)
  have "normalize_value 0 (- 32768) 32767 =
          Inr (Some (fl_round (fl_round (fl_round (32768 / 65535) * 2) - 1)))"
    using normalize_value_signed [of 32767 "- 32768" 0] by simp
  then show ?thesis
    by (simp only: r1 r2 r3)
qed

lemma decode_x_axis:
  assumes "HidP_GetUsageValue api preparsed report 1 0x30 = Inr (HIDP_STATUS_SUCCESS, 0)"
  shows "decode_hid_report api report preparsed [axis_cap 0x30 (- 32768) 32767] []
           = Inr ([''x'' \<mapsto> \<lparr>raw = 0, norm' = Some (68720525328 / 2 ^ 52),
                                min' = - 32768, max' = 32767\<rparr>], [])"
  using assms normalize_x_zero
  by (simp add: decode_eval)

lemma norm_x_value:
  "\<bar>68720525328 / 2 ^ 52 - 1 / 65535\<bar> < (1 / 2 ^ 60 :: real)"
  "\<bar>68720525328 / 2 ^ 52 - 152590 / 10 ^ 10\<bar> < (1 / 10 ^ 10 :: real)"
  "(0 :: real) < 68720525328 / 2 ^ 52"
  "\<not> \<bar>68720525328 / 2 ^ 52 - (- 152 / 10 ^ 7)\<bar> < (1 / 10 ^ 6 :: real)"
  by simp_all

text \<open>
  The claim as stated fails: for the usage \<open>0x30\<close> with the bounds \<open>-32768\<close> and
  \<open>32767\<close> and the raw value 0 the normalised value is positive, about
  \<open>+0.0000152590\<close>, and not within \<open>10\<^sup>-\<^sup>6\<close> of \<open>-0.0000152\<close>.
\<close>

theorem x_axis_norm_positive_counterexample:
  "decode_hid_report api_zero [0] [1] [axis_cap 0x30 (- 32768) 32767] []
     = Inr ([''x'' \<mapsto> \<lparr>raw = 0, norm' = Some (68720525328 / 2 ^ 52),
                          min' = - 32768, max' = 32767\<rparr>], [])
   \<and> (0 :: real) < 68720525328 / 2 ^ 52
   \<and> \<not> \<bar>68720525328 / 2 ^ 52 - (- 152 / 10 ^ 7)\<bar> < (1 / 10 ^ 6 :: real)"
proof -
  have "HidP_GetUsageValue api_zero [1] [0] 1 0x30 = Inr (HIDP_STATUS_SUCCESS, 0)"
    by (simp add: api_zero_def example_api_def)
  from decode_x_axis [OF this] norm_x_value(3,4) show ?thesis
    by simp
qed

text \<open>
  C9 (amended). For the value capability with the usage \<open>0x30\<close> and the bounds
  \<open>-32768\<close> and \<open>32767\<close> and the raw value 0, the entry \<^verbatim>\<open>axes["x"]\<close> is
  \<^verbatim>\<open>{raw: 0, norm: n, min: -32768, max: 32767}\<close> where \<open>n\<close> is the binary64 number
  \<open>68720525328 / 2\<^sup>5\<^sup>2\<close>, the rounded value of \<open>-1.0 + (0 - (-32768)) / 65535 * 2\<close>:
  it lies within \<open>2\<^sup>-\<^sup>6\<^sup>0\<close> of \<open>1 / 65535\<close>, that is \<open>n \<approx> +0.0000152590\<close>.
\<close>

theorem x_axis_scenario:
  assumes "HidP_GetUsageValue api preparsed report 1 0x30 = Inr (HIDP_STATUS_SUCCESS, 0)"
  shows "decode_hid_report api report preparsed [axis_cap 0x30 (- 32768) 32767] []
           = Inr ([''x'' \<mapsto> \<lparr>raw = 0, norm' = Some (68720525328 / 2 ^ 52),
                                min' = - 32768, max' = 32767\<rparr>], [])
         \<and> \<bar>68720525328 / 2 ^ 52 - 1 / 65535\<bar> < (1 / 2 ^ 60 :: real)
         \<and> \<bar>68720525328 / 2 ^ 52 - 152590 / 10 ^ 10\<bar> < (1 / 10 ^ 10 :: real)"
  using decode_x_axis [OF assms] norm_x_value(1,2) by simp

theorem x_axis_scenario_witness:
  "HidP_GetUsageValue api_zero [7] [0, 0] 1 0x30 = Inr (HIDP_STATUS_SUCCESS, 0)
   \<and> decode_hid_report api_zero [0, 0] [7] [axis_cap 0x30 (- 32768) 32767] []
       = Inr ([''x'' \<mapsto> \<lparr>raw = 0, norm' = Some (68720525328 / 2 ^ 52),
                            min' = - 32768, max' = 32767\<rparr>], [])"
proof -
  have h: "HidP_GetUsageValue api_zero [7] [0, 0] 1 0x30 = Inr (HIDP_STATUS_SUCCESS, 0)"
    by (simp add: api_zero_def example_api_def)
  from x_axis_scenario [OF h] h show ?thesis
    by simp
qed

section \<open>Parsing the capability tables\<close>

text \<open>
  The claim as stated fails: the value-capability query reports a failure, yet
  \<^verbatim>\<open>parse_hid_caps\<close> returns the capability summary and the button table.
\<close>

theorem parse_hid_caps_value_query_fails_counterexample:
  "fst (HidP_GetValueCaps api_value_caps_fail [1] 1) \<noteq> HIDP_STATUS_SUCCESS
   \<and> parse_hid_caps api_value_caps_fail [1] =
       Some (\<lparr>NumberInputButtonCaps = 1, NumberInputValueCaps = 1\<rparr>, [], [button_range 1 8])"
  by (simp add: parse_hid_caps_def api_value_caps_fail_def example_api_def check_hidp_def
        HIDP_STATUS_SUCCESS_def ctypes_array_def Let_def)

text \<open>
  C6 (amended). \<^verbatim>\<open>parse_hid_caps\<close> returns no tables exactly when \<^verbatim>\<open>HidP_GetCaps\<close>
  reports a non-success status. Otherwise it returns the capability summary and both
  tables, where a table whose own query reports a non-success status is empty and the
  other table is what its query retrieved, truncated to the count the query returned.
\<close>

theorem parse_hid_caps_tables:
  "(parse_hid_caps api preparsed = None
      \<longleftrightarrow> fst (HidP_GetCaps api preparsed) \<noteq> HIDP_STATUS_SUCCESS)
   \<and> (\<forall>caps value_caps button_caps.
        parse_hid_caps api preparsed = Some (caps, value_caps, button_caps) \<longrightarrow>
          caps = snd (HidP_GetCaps api preparsed)
          \<and> value_caps =
              (let nv = unat (NumberInputValueCaps caps);
                   r = HidP_GetValueCaps api preparsed nv
               in if fst r \<noteq> HIDP_STATUS_SUCCESS then []
                  else take (unat (snd (snd r))) (ctypes_array nv zero_value_caps (fst (snd r))))
          \<and> button_caps =
              (let nb = unat (NumberInputButtonCaps caps);
                   r = HidP_GetButtonCaps api preparsed nb
               in if fst r \<noteq> HIDP_STATUS_SUCCESS then []
                  else take (unat (snd (snd r))) (ctypes_array nb zero_button_caps (fst (snd r)))))"
  by (auto simp: parse_hid_caps_def check_hidp_def Let_def split: prod.splits)

theorem parse_hid_caps_tables_witness:
  "parse_hid_caps example_api [1] = None
   \<and> fst (HidP_GetButtonCaps api_button_caps_fail [1] 1) \<noteq> HIDP_STATUS_SUCCESS
   \<and> parse_hid_caps api_button_caps_fail [1] =
       Some (\<lparr>NumberInputButtonCaps = 1, NumberInputValueCaps = 2\<rparr>, [axis_cap 0x30 0 255], [])"
proof -
  have a: "fst (HidP_GetCaps example_api [1]) \<noteq> HIDP_STATUS_SUCCESS"
    by (simp add: example_api_def HIDP_STATUS_SUCCESS_def)
  have b: "parse_hid_caps api_button_caps_fail [1] =
       Some (\<lparr>NumberInputButtonCaps = 1, NumberInputValueCaps = 2\<rparr>, [axis_cap 0x30 0 255], [])"
    by (simp add: parse_hid_caps_def api_button_caps_fail_def example_api_def check_hidp_def
        HIDP_STATUS_SUCCESS_def ctypes_array_def Let_def)
  have c: "fst (HidP_GetButtonCaps api_button_caps_fail [1] 1) \<noteq> HIDP_STATUS_SUCCESS"
    by (simp add: api_button_caps_fail_def example_api_def HIDP_STATUS_SUCCESS_def)
  from parse_hid_caps_tables [of example_api "[1]"] a b c show ?thesis
    by simp
qed

section \<open>Devices rejected by the name filter\<close>

lemma handle_wm_input_rejected:
  assumes flt: "device_filter L = Some f" "f \<noteq> []"
    and nm: "\<not> sublist f (lower (get_device_name api h))"
    and inv: "device_cache L h = None" "\<forall>row \<in> set (writer L). device_handle row \<noteq> h"
  shows "device_filter (handle_wm_input api L lparam) = Some f
         \<and> device_cache (handle_wm_input api L lparam) h = None
         \<and> (\<forall>row \<in> set (writer (handle_wm_input api L lparam)). device_handle row \<noteq> h)
         \<and> count_list (filter_checks (handle_wm_input api L lparam)) h =
             count_list (filter_checks L) h + (if hid_event_from api h lparam then 1 else 0)"
proof (cases "GetRawInputData api lparam")
  case None
  with flt inv show ?thesis
    by (simp add: handle_wm_input_def hid_event_from_def)
next
  case (Some ri)
  show ?thesis
  proof (cases "dwType ri = RIM_TYPEHID")
    case False
    with Some flt inv show ?thesis
      by (simp add: handle_wm_input_def hid_event_from_def)
  next
    case hid: True
    show ?thesis
    proof (cases "hDevice ri = h")
      case True
      have "get_device_state api L h = (None, L\<lparr>filter_checks := filter_checks L @ [h]\<rparr>)"
        using flt nm inv(1)
        by (simp add: get_device_state_def Let_def match_filter_def ds_name_init)
      with Some hid True flt inv show ?thesis
        by (simp add: handle_wm_input_def hid_event_from_def Let_def)
    next
      case False
      obtain r L1 where g: "get_device_state api L (hDevice ri) = (r, L1)"
        by (cases "get_device_state api L (hDevice ri)")
      from g False inv flt have L1:
        "device_filter L1 = Some f" "device_cache L1 h = None" "writer L1 = writer L"
        "count_list (filter_checks L1) h = count_list (filter_checks L) h"
        by (auto simp: get_device_state_def Let_def split: option.splits if_splits)
      show ?thesis
      proof (cases r)
        case None
        with Some hid False g L1 inv show ?thesis
          by (simp add: handle_wm_input_def hid_event_from_def Let_def)
      next
        case (Some s)
        with \<open>GetRawInputData api lparam = Some ri\<close> hid False g L1 inv show ?thesis
          by (auto simp: handle_wm_input_def hid_event_from_def Let_def reports_loop_rows
                report_row_def)
      qed
    qed
  qed
qed

lemma message_loop_rejected:
  assumes "device_filter L = Some f" "f \<noteq> []"
    and "\<not> sublist f (lower (get_device_name api h))"
    and "device_cache L h = None" "\<forall>row \<in> set (writer L). device_handle row \<noteq> h"
  shows "device_filter (message_loop api L lparams) = Some f
         \<and> device_cache (message_loop api L lparams) h = None
         \<and> (\<forall>row \<in> set (writer (message_loop api L lparams)). device_handle row \<noteq> h)
         \<and> count_list (filter_checks (message_loop api L lparams)) h =
             count_list (filter_checks L) h + length (filter (hid_event_from api h) lparams)"
  using assms
proof (induction lparams arbitrary: L)
  case Nil
  then show ?case by (simp add: message_loop_def)
next
  case (Cons lp lps)
  from handle_wm_input_rejected [OF Cons.prems, of lp]
  have step: "device_filter (handle_wm_input api L lp) = Some f"
    "device_cache (handle_wm_input api L lp) h = None"
    "\<forall>row \<in> set (writer (handle_wm_input api L lp)). device_handle row \<noteq> h"
    "count_list (filter_checks (handle_wm_input api L lp)) h =
       count_list (filter_checks L) h + (if hid_event_from api h lp then 1 else 0)"
    by blast+
  from Cons.IH [OF step(1) Cons.prems(2,3) step(2,3)] step(4)
  show ?case
    by (simp add: message_loop_def)
qed

lemma lower_nonempty: "flt \<noteq> [] \<Longrightarrow> lower flt \<noteq> []"
  by (simp add: lower_def)

text \<open>
  C7 (amended). Let the display name of the device \<open>h\<close> not contain the configured
  filter, case-insensitively. After any sequence of messages, \<^verbatim>\<open>get_device_state\<close>
  returns \<^verbatim>\<open>None\<close> for \<open>h\<close>, \<open>h\<close> is not in the device cache, and no row
  written comes from \<open>h\<close>. The filter is evaluated for \<open>h\<close> once for every HID
  message of \<open>h\<close>: a rejected handle is not remembered.
\<close>

theorem rejected_device_rechecked:
  assumes "flt \<noteq> []" and "\<not> sublist (lower flt) (lower (get_device_name api h))"
  shows "fst (get_device_state api (message_loop api (RawInputLogger_init [] (Some flt)) lparams) h) = None
       \<and> device_cache (message_loop api (RawInputLogger_init [] (Some flt)) lparams) h = None
       \<and> (\<forall>row \<in> set (writer (message_loop api (RawInputLogger_init [] (Some flt)) lparams)).
             device_handle row \<noteq> h)
       \<and> count_list (filter_checks (message_loop api (RawInputLogger_init [] (Some flt)) lparams)) h
           = length (filter (hid_event_from api h) lparams)"
proof -
  let ?I = "RawInputLogger_init [] (Some flt)"
  let ?R = "message_loop api ?I lparams"
  have init: "device_filter ?I = Some (lower flt)" "device_cache ?I h = None"
    "\<forall>row \<in> set (writer ?I). device_handle row \<noteq> h" "filter_checks ?I = []"
    using assms(1) by (simp_all add: RawInputLogger_init_def)
  from message_loop_rejected [OF init(1) lower_nonempty [OF assms(1)] assms(2) init(2,3), of lparams]
  have run: "device_filter ?R = Some (lower flt)" "device_cache ?R h = None"
    "\<forall>row \<in> set (writer ?R). device_handle row \<noteq> h"
    "count_list (filter_checks ?R) h = length (filter (hid_event_from api h) lparams)"
    using init(4) by simp_all
  have "fst (get_device_state api ?R h) = None"
    using run(1,2) assms lower_nonempty [OF assms(1)]
    by (simp add: get_device_state_def Let_def match_filter_def ds_name_init)
  with run show ?thesis by blast
qed

theorem rejected_device_rechecked_witness:
  "\<not> sublist (lower ''Thrustmaster'') (lower (get_device_name api_logitech 7))
   \<and> fst (get_device_state api_logitech
         (message_loop api_logitech (RawInputLogger_init [] (Some ''Thrustmaster'')) [1, 2]) 7) = None
   \<and> device_cache
         (message_loop api_logitech (RawInputLogger_init [] (Some ''Thrustmaster'')) [1, 2]) 7 = None
   \<and> count_list (filter_checks
         (message_loop api_logitech (RawInputLogger_init [] (Some ''Thrustmaster'')) [1, 2])) 7 = 2"
proof -
  have h1: "''Thrustmaster'' \<noteq> []" by simp
  have h2: "\<not> sublist (lower ''Thrustmaster'') (lower (get_device_name api_logitech 7))"
    by code_simp
  have n: "length (filter (hid_event_from api_logitech 7) [1, 2]) = 2"
    by (simp add: hid_event_from_def api_logitech_def example_api_def)
  from rejected_device_rechecked [OF h1 h2, of "[1, 2]"] h2 n show ?thesis
    by simp
qed

text \<open>
  The claim as stated fails: with the filter \<^verbatim>\<open>Thrustmaster\<close>, two messages of the
  device \<^verbatim>\<open>Logitech Gamepad\<close> make \<^verbatim>\<open>get_device_state\<close> evaluate the filter
  twice for the same handle.
\<close>

theorem filter_checked_per_event_counterexample:
  "\<not> sublist (lower ''Thrustmaster'') (lower (get_device_name api_logitech 7))
   \<and> filter_checks (message_loop api_logitech (RawInputLogger_init [] (Some ''Thrustmaster'')) [1, 2])
       = [7, 7]"
  by code_simp

section \<open>Devices without value capabilities\<close>

text \<open>
  C10. When the cached state of the device has no value capability, a HID message
  of it writes one row per report with empty axes and empty buttons, whatever its
  button capabilities and its descriptor are; the result does not depend on the two
  decoding queries of the platform, so no button is decoded.
\<close>

theorem no_value_caps_no_decoding:
  assumes "device_cache L h = Some ds" and "ds_value_caps ds = []"
    and "GetRawInputData api lparam = Some ri" and "dwType ri = RIM_TYPEHID" and "hDevice ri = h"
  shows "handle_wm_input api L lparam =
           L\<lparr>writer := writer L @
               map (\<lambda>report.
                     \<lparr>timestamp_ms = time_ms api, device_handle = h, device_name = ds_name ds,
                      usage_page = ds_usage_page ds, usage = ds_usage ds,
                      report_size = length report, report_hex = report,
                      axes_json = Map.empty, buttons_json = []\<rparr>)
                   (parse_report_bytes
                      (py_slice (bRawData ri) 0 (unat (dwSizeHid ri) * unat (dwCount ri)))
                      (unat (dwSizeHid ri)) (unat (dwCount ri)))\<rparr>
         \<and> handle_wm_input (api\<lparr>HidP_GetUsageValue := gv, HidP_GetUsages := gu\<rparr>) L lparam =
             handle_wm_input api L lparam"
  using assms
  by (simp add: handle_wm_input_def get_device_state_def Let_def reports_loop_rows
        report_row_def decode_or_empty_def)

theorem no_value_caps_no_decoding_witness:
  "ds_button_caps button_box \<noteq> [] \<and> ds_preparsed button_box \<noteq> None
   \<and> writer (handle_wm_input api_box box_logger 1) =
       [\<lparr>timestamp_ms = 0, device_handle = 7, device_name = ''box'', usage_page = None,
         usage = None, report_size = 2, report_hex = [1, 2],
         axes_json = Map.empty, buttons_json = []\<rparr>]"
proof -
  have h: "device_cache box_logger 7 = Some button_box" "ds_value_caps button_box = []"
    "GetRawInputData api_box 1 =
       Some \<lparr>dwType = RIM_TYPEHID, hDevice = 7, dwSizeHid = 2, dwCount = 1, bRawData = [1, 2]\<rparr>"
    by (simp_all add: box_logger_def button_box_def api_box_def)
  have reps: "parse_report_bytes (py_slice [1, 2] 0 (2 * 1)) 2 1 = [[1, 2 :: byte]]"
    by (simp add: parse_report_bytes_def py_slice_def)
  from no_value_caps_no_decoding [OF h(1,2,3), of gv gu] reps
  show ?thesis
    by (simp add: box_logger_def plain_logger_def RawInputLogger_init_def button_box_def
          api_box_def api_button5_def example_api_def ds_usage_page_def ds_usage_def
          button_range_def)
qed

end
